theory Spec2Isabelle
  imports Main
begin

section \<open>Orbit: channel membership, posting and peer polling (src/Orbit.js)\<close>

text \<open>
  The class \<open>Orbit\<close> is embedded as a record of its fields together with the part of
  the outside world its methods act on (event emitter, promise table, interval timers,
  calls made to the log store). Every method is a function from the state before the
  call to its result and the state after it. A thrown error or a rejected promise is a
  value of type \<open>error\<close>; what a collaborator answers (identity provider, log store,
  content store) is an argument of the method, so both its success and its failure are
  branches of the model.
\<close>

subsection \<open>Errors and values\<close>

datatype error =
    AlreadyConnected
  | AlreadyConnecting
  | UsernameNotSpecified
  | ChannelNotSpecified
  | ChannelMustBeSpecified
  | EmptyMessage
  | UserUndefined
  | FilenameOrDirectoryNotSpecified
  | HaveNotJoined string
  | TypeError
  | CollaboratorError nat

text \<open>
  \<open>TypeError\<close> is what the JavaScript runtime throws when a property of \<open>null\<close> or
  \<open>undefined\<close> is read or called; \<open>CollaboratorError\<close> stands for any error a
  collaborator raises. Strings are sequences of code units.
\<close>

record user_profile =
  name :: string
  location :: string
  image_ref :: "string option"

record session =
  identity :: nat
  profile :: user_profile

datatype jsval =
    JUndefined
  | JNull
  | JBool bool
  | JNum int
  | JStr string
  | JProfile user_profile

fun truthy :: "jsval \<Rightarrow> bool" where
  "truthy JUndefined = False"
| "truthy JNull = False"
| "truthy (JBool b) = b"
| "truthy (JNum i) = (i \<noteq> 0)"
| "truthy (JStr s) = (s \<noteq> [])"
| "truthy (JProfile p) = True"

text \<open>
  Modelled from the spec: the class \<open>Channel\<close> (required from \<open>./Channel\<close>) is not part
  of the source at hand. The spec's data model gives a Channel its name and the handle of
  its log; \<open>Orbit\<close> itself reads only the property \<open>feed\<close>. A log handle is an object
  of the collaborator (always truthy), named here by a number.
\<close>

record channel =
  channelName :: string
  feed :: nat

record message =
  content :: string
  meta :: "string \<rightharpoonup> jsval"

datatype event =
    Connected session
  | Disconnected
  | Joined string channel
  | Left string
  | Peers "string list"

subsection \<open>Property lookup on a plain object\<close>

text \<open>
  \<open>_channels\<close> and \<open>_joiningQueue\<close> are created as \<open>{}\<close>, so they inherit from
  \<open>Object.prototype\<close>: reading \<open>obj[k]\<close> yields the own property when there is one, a
  built-in (a function, or the prototype object itself for \<open>__proto__\<close>) when \<open>k\<close> names
  a property of \<open>Object.prototype\<close>, and \<open>undefined\<close> otherwise. A built-in is truthy
  and has no property \<open>feed\<close>.
\<close>

definition object_prototype_names :: "string list" where
  "object_prototype_names =
     [''constructor'', ''hasOwnProperty'', ''isPrototypeOf'', ''propertyIsEnumerable'',
      ''toLocaleString'', ''toString'', ''valueOf'', ''__proto__'',
      ''__defineGetter__'', ''__defineSetter__'', ''__lookupGetter__'', ''__lookupSetter__'']"

datatype 'a lookup = Undefined | Inherited | Own 'a

definition get_prop :: "(string \<rightharpoonup> 'a) \<Rightarrow> string \<Rightarrow> 'a lookup" where
  "get_prop obj k =
     (case obj k of
        Some v \<Rightarrow> Own v
      | None \<Rightarrow> if k \<in> set object_prototype_names then Inherited else Undefined)"

subsection \<open>The instance and its world\<close>

datatype promise = Pending | Fulfilled channel | Rejected error

record orbit =
  orbitdb :: "nat option"
  user :: "session option"
  channels :: "string \<rightharpoonup> channel"
  peers :: "string list"
  pollPeersTimer :: "nat option"
  joiningQueue :: "string \<rightharpoonup> nat"
  connecting :: bool
  events :: "event list"
  promises :: "promise list"
  log_calls :: "string list"
  inflight :: "nat \<rightharpoonup> string"
  timers :: "nat list"
  next_timer :: nat
  posted :: "(nat \<times> message) list"
  closed_feeds :: "nat list"

text \<open>
  The first seven fields are those the constructor sets. The others are the world:
  \<open>events\<close> lists what was emitted, oldest first; \<open>promises\<close> holds the promises that
  \<open>join\<close> created with their settlement, a promise being named by its position;
  \<open>log_calls\<close> lists the channel names \<open>_orbitdb.log\<close> was called with; \<open>inflight\<close>
  maps the promise of a join to its channel name while the store has not answered that
  call; \<open>timers\<close> are the interval timers the host will still fire, and \<open>next_timer\<close>
  the next handle \<open>setInterval\<close> returns (a handle is truthy); \<open>posted\<close> lists the
  records handed to \<open>Feed.add\<close> with the log they went to; \<open>closed_feeds\<close> the log
  handles closed.
\<close>

definition constructor :: orbit where
  "constructor =
     \<lparr>orbitdb = None, user = None, channels = Map.empty, peers = [],
      pollPeersTimer = None, joiningQueue = Map.empty, connecting = False,
      events = [], promises = [], log_calls = [], inflight = Map.empty,
      timers = [], next_timer = 1, posted = [], closed_feeds = []\<rparr>"

subsection \<open>join and the answer of the log store\<close>

datatype join_ret =
    Fresh_rejected error
  | Fresh_resolved "channel lookup"
  | From_queue "nat lookup"

text \<open>
  \<open>join\<close> returns \<open>Promise.reject(..)\<close>, \<open>Promise.resolve(this._channels[channelName])\<close>
  or the value read from \<open>this._joiningQueue[channelName]\<close>. In the third branch the
  executor of the new promise runs at once, and what it throws rejects the new promise:
  with \<open>_orbitdb\<close> null the call \<open>this._orbitdb.log\<close> throws before any call reaches
  the store. With a store handle the store is called, and \<open>log_res\<close> is what the
  expression \<open>this._orbitdb.log(channelName, options).then(..)\<close> does: \<open>Some e\<close> when
  it throws \<open>e\<close> (\<open>log\<close> itself throws, or what it returns has no \<open>then\<close>), \<open>None\<close>
  when \<open>log\<close> returns a promise; the new promise then stays pending until the store
  answers.
\<close>

definition join :: "error option \<Rightarrow> string \<Rightarrow> orbit \<Rightarrow> join_ret \<times> orbit" where
  "join log_res cn s =
     (if cn = [] then (Fresh_rejected ChannelNotSpecified, s)
      else case get_prop (channels s) cn of
        Own c \<Rightarrow> (Fresh_resolved (Own c), s)
      | Inherited \<Rightarrow> (Fresh_resolved Inherited, s)
      | Undefined \<Rightarrow>
          (case get_prop (joiningQueue s) cn of
             Own p \<Rightarrow> (From_queue (Own p), s)
           | Inherited \<Rightarrow> (From_queue Inherited, s)
           | Undefined \<Rightarrow>
               (let p = length (promises s) in
                case orbitdb s of
                  None \<Rightarrow>
                    (From_queue (Own p),
                     s\<lparr>promises := promises s @ [Rejected TypeError],
                       joiningQueue := (joiningQueue s)(cn \<mapsto> p)\<rparr>)
                | Some db \<Rightarrow>
                    (case log_res of
                       Some e \<Rightarrow>
                         (From_queue (Own p),
                          s\<lparr>promises := promises s @ [Rejected e],
                            log_calls := log_calls s @ [cn],
                            joiningQueue := (joiningQueue s)(cn \<mapsto> p)\<rparr>)
                     | None \<Rightarrow>
                         (From_queue (Own p),
                          s\<lparr>promises := promises s @ [Pending],
                            log_calls := log_calls s @ [cn],
                            inflight := (inflight s)(p \<mapsto> cn),
                            joiningQueue := (joiningQueue s)(cn \<mapsto> p)\<rparr>)))))"

definition settle :: "nat \<Rightarrow> promise \<Rightarrow> promise list \<Rightarrow> promise list" where
  "settle p v ps = (if p < length ps \<and> ps ! p = Pending then ps[p := v] else ps)"

text \<open>
  The store answers the call made for promise \<open>p\<close> with the log handle \<open>f\<close>: the
  callback given to \<open>then\<close> runs. An answer for a call that is not in flight is no step.
\<close>

definition open_resolved :: "nat \<Rightarrow> nat \<Rightarrow> orbit \<Rightarrow> orbit" where
  "open_resolved p f s =
     (case inflight s p of
        None \<Rightarrow> s
      | Some cn \<Rightarrow>
          (let c = \<lparr>channelName = cn, feed = f\<rparr> in
           s\<lparr>channels := (channels s)(cn \<mapsto> c),
             events := events s @ [Joined cn c],
             joiningQueue := (joiningQueue s)(cn := None),
             promises := settle p (Fulfilled c) (promises s),
             inflight := (inflight s)(p := None)\<rparr>))"

text \<open>
  The store rejects the call made for promise \<open>p\<close>: \<open>then\<close> was given no rejection
  handler and the executor never calls \<open>resolve\<close>, so nothing of the instance changes.
\<close>

definition open_rejected :: "nat \<Rightarrow> orbit \<Rightarrow> orbit" where
  "open_rejected p s =
     (case inflight s p of
        None \<Rightarrow> s
      | Some cn \<Rightarrow> s\<lparr>inflight := (inflight s)(p := None)\<rparr>)"

subsection \<open>connect, disconnect and the poller\<close>

datatype credentials = CredString string | CredObject "string option"

text \<open>
  \<open>credentials\<close> is a string or an object whose property \<open>username\<close> is a string or
  is missing; calling \<open>connect()\<close> without argument is \<open>CredObject None\<close>.
\<close>

definition username_of :: "credentials \<Rightarrow> string option" where
  "username_of credentials =
     (case credentials of CredString u \<Rightarrow> Some u | CredObject u \<Rightarrow> u)"

definition startPollingForPeers :: "orbit \<Rightarrow> orbit" where
  "startPollingForPeers s =
     (case pollPeersTimer s of
        None \<Rightarrow>
          (let h = next_timer s in
           s\<lparr>pollPeersTimer := Some h, timers := timers s @ [h], next_timer := Suc h\<rparr>)
      | Some h \<Rightarrow> s)"

text \<open>
  \<open>id_res\<close> is the answer of \<open>Identities.createIdentity\<close> and \<open>db_res\<close> that of
  \<open>OrbitDB.createInstance\<close>. An error leaves the instance as the statements before the
  throw have made it.
\<close>

definition connect ::
  "error + nat \<Rightarrow> error + nat \<Rightarrow> credentials \<Rightarrow> orbit \<Rightarrow> (error + unit) \<times> orbit" where
  "connect id_res db_res credentials s =
     (if orbitdb s \<noteq> None then (Inl AlreadyConnected, s)
      else if connecting s then (Inl AlreadyConnecting, s)
      else
        (let s1 = s\<lparr>connecting := True\<rparr> in
         case username_of credentials of
           None \<Rightarrow> (Inl UsernameNotSpecified, s1)
         | Some u \<Rightarrow>
             if u = [] then (Inl UsernameNotSpecified, s1)
             else
               (case id_res of
                  Inl e \<Rightarrow> (Inl e, s1)
                | Inr ident \<Rightarrow>
                    (let usr = \<lparr>identity = ident,
                                profile = \<lparr>name = u, location = ''Earth'', image_ref = None\<rparr>\<rparr>;
                         s2 = s1\<lparr>user := Some usr\<rparr>
                     in case db_res of
                          Inl e \<Rightarrow> (Inl e, s2)
                        | Inr db \<Rightarrow>
                            (let s3 = startPollingForPeers (s2\<lparr>orbitdb := Some db\<rparr>)
                             in (Inr (), s3\<lparr>events := events s3 @ [Connected usr]\<rparr>))))))"

text \<open>
  \<open>close_res\<close> is the answer of the store's own \<open>disconnect\<close>: \<open>None\<close> when it
  returns, \<open>Some e\<close> when it raises \<open>e\<close>. The call is awaited with no handler around it.
\<close>

definition clearInterval :: "nat option \<Rightarrow> orbit \<Rightarrow> orbit" where
  "clearInterval t s =
     (case t of None \<Rightarrow> s | Some h \<Rightarrow> s\<lparr>timers := removeAll h (timers s)\<rparr>)"

definition disconnect :: "error option \<Rightarrow> orbit \<Rightarrow> (error + unit) \<times> orbit" where
  "disconnect close_res s =
     (case orbitdb s of
        None \<Rightarrow> (Inr (), s)
      | Some db \<Rightarrow>
          (case close_res of
             Some e \<Rightarrow> (Inl e, s)
           | None \<Rightarrow>
               (let s1 = s\<lparr>connecting := False, orbitdb := None, user := None,
                           channels := Map.empty\<rparr>;
                    s2 = clearInterval (pollPeersTimer s1) s1
                in (Inr (), s2\<lparr>events := events s2 @ [Disconnected]\<rparr>))))"

text \<open>
  One firing of the interval timer. \<open>peers_res\<close> is the answer of \<open>swarm.peers()\<close>: a
  table from peer id to an optional address. \<open>_updateSwarmPeers\<close> catches an error and
  then returns \<open>undefined\<close>, which \<open>update\<close> turns into the empty list.
\<close>

definition updateSwarmPeers :: "error + (string \<times> string option) list \<Rightarrow> string list option" where
  "updateSwarmPeers peers_res =
     (case peers_res of
        Inl e \<Rightarrow> None
      | Inr tbl \<Rightarrow> Some (List.map_filter snd tbl))"

definition poll_tick :: "error + (string \<times> string option) list \<Rightarrow> orbit \<Rightarrow> orbit" where
  "poll_tick peers_res s =
     (if timers s = [] then s
      else
        (let ps = (case updateSwarmPeers peers_res of None \<Rightarrow> [] | Some l \<Rightarrow> l)
         in s\<lparr>peers := ps, events := events s @ [Peers ps]\<rparr>))"

subsection \<open>leave, send and posting\<close>

text \<open>
  \<open>close_res\<close> is the answer of \<open>channel.feed.close()\<close>. When the value read from
  \<open>this.channels\<close> is an inherited built-in, it is truthy and its \<open>feed\<close> is
  \<open>undefined\<close>, so calling \<open>close\<close> on it throws.
\<close>

definition leave :: "error option \<Rightarrow> string \<Rightarrow> orbit \<Rightarrow> (error + unit) \<times> orbit" where
  "leave close_res cn s =
     (case get_prop (channels s) cn of
        Undefined \<Rightarrow> (Inr (), s\<lparr>events := events s @ [Left cn]\<rparr>)
      | Inherited \<Rightarrow> (Inl TypeError, s)
      | Own c \<Rightarrow>
          (case close_res of
             Some e \<Rightarrow> (Inl e, s)
           | None \<Rightarrow>
               (let s1 = s\<lparr>closed_feeds := closed_feeds s @ [feed c],
                           channels := (channels s)(cn := None)\<rparr>
                in (Inr (), s1\<lparr>events := events s1 @ [Left cn]\<rparr>))))"

text \<open>
  \<open>this.channels[channelName].feed || null\<close>: reading \<open>feed\<close> of \<open>undefined\<close> throws
  before the test that follows is reached.
\<close>

definition getChannelFeed :: "string \<Rightarrow> orbit \<Rightarrow> error + nat" where
  "getChannelFeed cn s =
     (if cn = [] then Inl ChannelNotSpecified
      else case get_prop (channels s) cn of
        Undefined \<Rightarrow> Inl TypeError
      | Inherited \<Rightarrow> Inl (HaveNotJoined cn)
      | Own c \<Rightarrow> Inr (feed c))"

text \<open>
  \<open>add_res\<close> is the answer of \<open>Feed.add\<close>, returned to the caller as it is; the record
  handed over is logged in \<open>posted\<close>.
\<close>

definition postMessage ::
  "error + nat \<Rightarrow> string \<Rightarrow> message \<Rightarrow> orbit \<Rightarrow> (error + nat) \<times> orbit" where
  "postMessage add_res cn data s =
     (case getChannelFeed cn s of
        Inl e \<Rightarrow> (Inl e, s)
      | Inr f \<Rightarrow> (add_res, s\<lparr>posted := posted s @ [(f, data)]\<rparr>))"

text \<open>\<open>now\<close> is the value of \<open>new Date().getTime()\<close>.\<close>

definition send ::
  "error + nat \<Rightarrow> int \<Rightarrow> string \<Rightarrow> string \<Rightarrow> orbit \<Rightarrow> (error + nat) \<times> orbit" where
  "send add_res now cn msg s =
     (if cn = [] then (Inl ChannelMustBeSpecified, s)
      else if msg = [] then (Inl EmptyMessage, s)
      else case user s of
        None \<Rightarrow> (Inl UserUndefined, s)
      | Some u \<Rightarrow>
          postMessage add_res cn
            \<lparr>content = take 2048 msg,
             meta = [''from'' \<mapsto> JProfile (profile u), ''type'' \<mapsto> JStr ''text'',
                     ''ts'' \<mapsto> JNum now]\<rparr> s)"

subsection \<open>addFile\<close>

record entry =
  path :: string
  hash :: string

record source =
  filename :: "string option"
  directory :: "string option"
  buffer :: "nat list option"
  src_meta :: "(string \<rightharpoonup> jsval) option"

text \<open>
  A property of \<open>source\<close> that is not given is \<open>None\<close>; \<open>src_meta\<close> is the property
  \<open>meta\<close> of the source (the name \<open>meta\<close> is the field of the record posted). A buffer
  is an object, hence truthy; a string is truthy when it is not empty.
\<close>

definition truthy_str :: "string option \<Rightarrow> bool" where
  "truthy_str x = (case x of None \<Rightarrow> False | Some v \<Rightarrow> v \<noteq> [])"

fun split_slash :: "string \<Rightarrow> string list" where
  "split_slash [] = [[]]"
| "split_slash (c # cs) =
     (if c = CHR ''/'' then [] # split_slash cs
      else case split_slash cs of
             [] \<Rightarrow> [[c]]
           | w # ws \<Rightarrow> (c # w) # ws)"

text \<open>\<open>x.split('/').pop()\<close>; \<open>split\<close> never returns the empty array.\<close>

definition split_pop :: "string option \<Rightarrow> error + string" where
  "split_pop x = (case x of None \<Rightarrow> Inl TypeError | Some v \<Rightarrow> Inr (last (split_slash v)))"

definition addToIpfsJs :: "error + entry list \<Rightarrow> error + string \<times> bool" where
  "addToIpfsJs ipfs_res =
     (case ipfs_res of
        Inl e \<Rightarrow> Inl e
      | Inr [] \<Rightarrow> Inl TypeError
      | Inr (r0 # rs) \<Rightarrow> Inr (hash r0, False))"

definition addToIpfsGo :: "string \<Rightarrow> error + entry list \<Rightarrow> error + string \<times> bool" where
  "addToIpfsGo fname ipfs_res =
     (case ipfs_res of
        Inl e \<Rightarrow> Inl e
      | Inr [] \<Rightarrow> Inl TypeError
      | Inr (r0 # rs) \<Rightarrow>
          (let isDirectory = (last (split_slash (path r0)) \<noteq> fname)
           in Inr (if isDirectory then hash (last (r0 # rs)) else hash r0, isDirectory)))"

text \<open>
  \<open>ipfs_res\<close> is the answer of \<open>this._ipfs.add\<close> (one call in each of the three
  branches), \<open>add_res\<close> that of \<open>Feed.add\<close>. The constants \<open>isBuffer\<close>, \<open>name\<close>,
  \<open>size\<close>, \<open>upload\<close> and \<open>data\<close> of the method body are definitions of their own.
  \<open>Object.assign\<close> copies the properties of its arguments from left to right into the
  first one, which is \<open>++\<close> on maps.
\<close>

definition addFile_isBuffer :: "source \<Rightarrow> bool" where
  "addFile_isBuffer src = (buffer src \<noteq> None \<and> truthy_str (filename src))"

definition addFile_name :: "source \<Rightarrow> error + string" where
  "addFile_name src =
     (if truthy_str (directory src) then split_pop (directory src)
      else split_pop (filename src))"

definition addFile_size :: "source \<Rightarrow> jsval" where
  "addFile_size src =
     (case src_meta src of
        None \<Rightarrow> JNum 0
      | Some m \<Rightarrow>
          (case m ''size'' of
             None \<Rightarrow> JNum 0
           | Some v \<Rightarrow> if truthy v then v else JNum 0))"

definition addFile_upload :: "source \<Rightarrow> string \<Rightarrow> error + entry list \<Rightarrow> error + string \<times> bool" where
  "addFile_upload src nm ipfs_res =
     (if addFile_isBuffer src then addToIpfsJs ipfs_res
      else if truthy_str (directory src) then addToIpfsGo nm ipfs_res
      else addToIpfsGo nm ipfs_res)"

definition addFile_data :: "session \<Rightarrow> int \<Rightarrow> source \<Rightarrow> string \<Rightarrow> string \<times> bool \<Rightarrow> message" where
  "addFile_data u now src nm upload =
     \<lparr>content = fst upload,
      meta =
        [''from'' \<mapsto> JProfile (profile u),
         ''type'' \<mapsto> JStr (if snd upload then ''directory'' else ''file''),
         ''ts'' \<mapsto> JNum now]
        ++ [''size'' \<mapsto> addFile_size src, ''name'' \<mapsto> JStr nm]
        ++ (case src_meta src of None \<Rightarrow> Map.empty | Some m \<Rightarrow> m)\<rparr>"

text \<open>The property \<open>type\<close> of \<open>source.meta\<close>, when the source has one.\<close>

definition supplied_type :: "source \<Rightarrow> jsval option" where
  "supplied_type src = (case src_meta src of None \<Rightarrow> None | Some m \<Rightarrow> m ''type'')"

definition addFile ::
  "error + entry list \<Rightarrow> error + nat \<Rightarrow> int \<Rightarrow> string \<Rightarrow> source option \<Rightarrow> orbit
     \<Rightarrow> (error + nat) \<times> orbit" where
  "addFile ipfs_res add_res now cn source s =
     (case source of
        None \<Rightarrow> (Inl FilenameOrDirectoryNotSpecified, s)
      | Some src \<Rightarrow>
          if \<not> truthy_str (filename src) \<and> \<not> truthy_str (directory src)
          then (Inl FilenameOrDirectoryNotSpecified, s)
          else
            (case addFile_name src of
               Inl e \<Rightarrow> (Inl e, s)
             | Inr nm \<Rightarrow>
                 (case addFile_upload src nm ipfs_res of
                    Inl e \<Rightarrow> (Inl e, s)
                  | Inr upload \<Rightarrow>
                      (case user s of
                         None \<Rightarrow> (Inl TypeError, s)
                       | Some u \<Rightarrow>
                           postMessage add_res cn (addFile_data u now src nm upload) s))))"

subsection \<open>Runs of the instance\<close>

text \<open>
  What can happen to an instance: a caller invokes a public method, the log store answers
  a call of \<open>join\<close> that is in flight, or the interval timer fires. A run is a sequence
  of such steps from some state; the state is reachable when the run starts at the
  constructor's.
\<close>

datatype action =
    Connect "error + nat" "error + nat" credentials
  | Disconnect "error option"
  | Join "error option" string
  | Leave "error option" string
  | Send "error + nat" int string string
  | AddFile "error + entry list" "error + nat" int string "source option"
  | OpenResolved nat nat
  | OpenRejected nat
  | PollTick "error + (string \<times> string option) list"

fun step :: "action \<Rightarrow> orbit \<Rightarrow> orbit" where
  "step (Connect id_res db_res credentials) s = snd (connect id_res db_res credentials s)"
| "step (Disconnect close_res) s = snd (disconnect close_res s)"
| "step (Join log_res cn) s = snd (join log_res cn s)"
| "step (Leave close_res cn) s = snd (leave close_res cn s)"
| "step (Send add_res now cn msg) s = snd (send add_res now cn msg s)"
| "step (AddFile ipfs_res add_res now cn source) s =
     snd (addFile ipfs_res add_res now cn source s)"
| "step (OpenResolved p f) s = open_resolved p f s"
| "step (OpenRejected p) s = open_rejected p s"
| "step (PollTick peers_res) s = poll_tick peers_res s"

definition run :: "action list \<Rightarrow> orbit \<Rightarrow> orbit" where
  "run acts s = fold step acts s"

text \<open>
  Each method is one step: what a method does after an \<open>await\<close> follows at once. The
  answer of the log store to \<open>join\<close>, which \<open>join\<close> does not await, is a step of its
  own, so any number of other steps may lie between a \<open>join\<close> and its answer.
\<close>

fun answers :: "nat \<Rightarrow> action \<Rightarrow> bool" where
  "answers p (OpenResolved q f) = (q = p)"
| "answers p (OpenRejected q) = (q = p)"
| "answers p a = False"

subsection \<open>Counting calls and events\<close>

definition is_joined :: "string \<Rightarrow> event \<Rightarrow> bool" where
  "is_joined cn e = (case e of Joined n c \<Rightarrow> n = cn | _ \<Rightarrow> False)"

definition joined_count :: "string \<Rightarrow> orbit \<Rightarrow> nat" where
  "joined_count cn s = length (filter (is_joined cn) (events s))"

definition open_count :: "string \<Rightarrow> orbit \<Rightarrow> nat" where
  "open_count cn s = count_list (log_calls s) cn"

subsection \<open>Invariants of the join bookkeeping\<close>

text \<open>
  \<open>inflight_inv\<close> holds of every reachable state: a call to the store that is in flight
  belongs to the entry of its name in \<open>_joiningQueue\<close>, the name has no Channel, and the
  promise of the call is pending. \<open>pending cn p\<close> says that the join of \<open>cn\<close> with promise
  \<open>p\<close> is in flight and is the only one for \<open>cn\<close>; \<open>stuck cn p\<close> says that \<open>cn\<close> has
  the entry \<open>p\<close> in \<open>_joiningQueue\<close> and nothing in flight that could remove it.
  \<open>same_history\<close> compares what two states record about \<open>cn\<close> and \<open>p\<close>.
\<close>

definition inflight_inv :: "orbit \<Rightarrow> bool" where
  "inflight_inv s \<longleftrightarrow>
     (\<forall>p n. inflight s p = Some n \<longrightarrow>
        joiningQueue s n = Some p \<and> channels s n = None \<and>
        n \<notin> set object_prototype_names \<and> n \<noteq> [] \<and>
        p < length (promises s) \<and> promises s ! p = Pending)"

definition pending :: "string \<Rightarrow> nat \<Rightarrow> orbit \<Rightarrow> bool" where
  "pending cn p s \<longleftrightarrow>
     inflight s p = Some cn \<and> joiningQueue s cn = Some p \<and> channels s cn = None \<and>
     cn \<notin> set object_prototype_names \<and> cn \<noteq> [] \<and>
     (\<forall>q. q \<noteq> p \<longrightarrow> inflight s q \<noteq> Some cn) \<and>
     p < length (promises s) \<and> promises s ! p = Pending"

definition stuck :: "string \<Rightarrow> nat \<Rightarrow> orbit \<Rightarrow> bool" where
  "stuck cn p s \<longleftrightarrow>
     joiningQueue s cn = Some p \<and> channels s cn = None \<and>
     cn \<notin> set object_prototype_names \<and> cn \<noteq> [] \<and>
     (\<forall>q. inflight s q \<noteq> Some cn) \<and> inflight s p = None \<and> p < length (promises s)"

definition same_history :: "string \<Rightarrow> nat \<Rightarrow> orbit \<Rightarrow> orbit \<Rightarrow> bool" where
  "same_history cn p s s' \<longleftrightarrow>
     open_count cn s' = open_count cn s \<and> joined_count cn s' = joined_count cn s \<and>
     promises s' ! p = promises s ! p"

subsection \<open>Example states and inputs\<close>

definition alice :: session where
  "alice = \<lparr>identity = 7, profile = \<lparr>name = ''alice'', location = ''Earth'', image_ref = None\<rparr>\<rparr>"

definition alice_connected :: orbit where
  "alice_connected = run [Connect (Inr 7) (Inr 9) (CredString ''alice'')] constructor"

definition general :: channel where
  "general = \<lparr>channelName = ''general'', feed = 5\<rparr>"

definition alice_in_general :: orbit where
  "alice_in_general = run [Join None ''general'', OpenResolved 0 5] alice_connected"

definition buffer_source :: source where
  "buffer_source =
     \<lparr>filename = Some ''a.txt'', directory = None, buffer = Some [1, 2, 3],
      src_meta = Some [''type'' \<mapsto> JStr ''directory'']\<rparr>"

definition path_source :: source where
  "path_source =
     \<lparr>filename = Some ''docs/a.txt'', directory = None, buffer = None, src_meta = None\<rparr>"

definition one_entry :: "entry list" where
  "one_entry = [\<lparr>path = ''a.txt'', hash = ''Qm1''\<rparr>]"

definition plain_buffer_source :: source where
  "plain_buffer_source =
     \<lparr>filename = Some ''a.txt'', directory = None, buffer = Some [1, 2, 3],
      src_meta = None\<rparr>"

definition dir_source :: source where
  "dir_source =
     \<lparr>filename = None, directory = Some ''pics/holiday'', buffer = None, src_meta = None\<rparr>"

definition dir_entries :: "entry list" where
  "dir_entries =
     [\<lparr>path = ''holiday/a.jpg'', hash = ''QmA''\<rparr>, \<lparr>path = ''holiday'', hash = ''QmDir''\<rparr>]"

definition forged_source :: source where
  "forged_source =
     \<lparr>filename = Some ''a.txt'', directory = None, buffer = Some [1, 2, 3],
      src_meta = Some [''type'' \<mapsto> JStr ''image'', ''from'' \<mapsto> JStr ''mallory'',
                       ''ts'' \<mapsto> JNum 1]\<rparr>"

section \<open>Properties\<close>

subsection \<open>Evaluating the example states\<close>

lemmas op_defs = run_def connect_def username_of_def startPollingForPeers_def constructor_def
  disconnect_def clearInterval_def join_def get_prop_def object_prototype_names_def
  open_resolved_def open_rejected_def settle_def leave_def getChannelFeed_def
  postMessage_def send_def Let_def

lemma alice_connected_eq:
  "alice_connected =
     \<lparr>orbitdb = Some 9, user = Some alice, channels = Map.empty, peers = [],
      pollPeersTimer = Some 1, joiningQueue = Map.empty, connecting = True,
      events = [Connected alice], promises = [], log_calls = [], inflight = Map.empty,
      timers = [1], next_timer = 2, posted = [], closed_feeds = []\<rparr>"
  by (simp add: alice_connected_def alice_def op_defs numeral_2_eq_2)

lemma alice_in_general_eq:
  "alice_in_general =
     \<lparr>orbitdb = Some 9, user = Some alice, channels = [''general'' \<mapsto> general], peers = [],
      pollPeersTimer = Some 1, joiningQueue = Map.empty, connecting = True,
      events = [Connected alice, Joined ''general'' general],
      promises = [Fulfilled general], log_calls = [''general''], inflight = Map.empty,
      timers = [1], next_timer = 2, posted = [], closed_feeds = []\<rparr>"
  by (simp add: alice_in_general_def alice_connected_eq general_def) (simp add: op_defs)

lemma get_prop_Undefined:
  "get_prop m k = Undefined \<longleftrightarrow> m k = None \<and> k \<notin> set object_prototype_names"
  by (simp add: get_prop_def split: option.splits)

lemma split_slash_not_Nil: "split_slash v \<noteq> []"
  by (induction v) (auto split: list.splits)

subsection \<open>What each step leaves alone\<close>

lemma connect_frame:
  "channels (snd (connect a b c s)) = channels s"
  "joiningQueue (snd (connect a b c s)) = joiningQueue s"
  "inflight (snd (connect a b c s)) = inflight s"
  "promises (snd (connect a b c s)) = promises s"
  "log_calls (snd (connect a b c s)) = log_calls s"
  "joined_count cn (snd (connect a b c s)) = joined_count cn s"
  by (auto simp: connect_def startPollingForPeers_def Let_def joined_count_def is_joined_def
      split: option.splits sum.splits)

lemma disconnect_frame:
  "channels s n = None \<Longrightarrow> channels (snd (disconnect r s)) n = None"
  "joiningQueue (snd (disconnect r s)) = joiningQueue s"
  "inflight (snd (disconnect r s)) = inflight s"
  "promises (snd (disconnect r s)) = promises s"
  "log_calls (snd (disconnect r s)) = log_calls s"
  "joined_count cn (snd (disconnect r s)) = joined_count cn s"
  by (auto simp: disconnect_def clearInterval_def Let_def joined_count_def is_joined_def
      split: option.splits sum.splits)

lemma leave_frame:
  "channels s n = None \<Longrightarrow> channels (snd (leave r m s)) n = None"
  "joiningQueue (snd (leave r m s)) = joiningQueue s"
  "inflight (snd (leave r m s)) = inflight s"
  "promises (snd (leave r m s)) = promises s"
  "log_calls (snd (leave r m s)) = log_calls s"
  "joined_count cn (snd (leave r m s)) = joined_count cn s"
  by (auto simp: leave_def Let_def joined_count_def is_joined_def
      split: option.splits sum.splits lookup.splits)

lemma postMessage_frame:
  "channels (snd (postMessage r m d s)) = channels s"
  "joiningQueue (snd (postMessage r m d s)) = joiningQueue s"
  "inflight (snd (postMessage r m d s)) = inflight s"
  "promises (snd (postMessage r m d s)) = promises s"
  "log_calls (snd (postMessage r m d s)) = log_calls s"
  "joined_count cn (snd (postMessage r m d s)) = joined_count cn s"
  by (auto simp: postMessage_def joined_count_def split: sum.splits)

lemma send_frame:
  "channels (snd (send r t m d s)) = channels s"
  "joiningQueue (snd (send r t m d s)) = joiningQueue s"
  "inflight (snd (send r t m d s)) = inflight s"
  "promises (snd (send r t m d s)) = promises s"
  "log_calls (snd (send r t m d s)) = log_calls s"
  "joined_count cn (snd (send r t m d s)) = joined_count cn s"
  by (auto simp: send_def postMessage_frame split: option.splits)

lemma addFile_state:
  "snd (addFile i r t m src s) = s \<or>
   (\<exists>d. snd (addFile i r t m src s) = snd (postMessage r m d s))"
  unfolding addFile_def by (auto split: option.split sum.split)

lemma addFile_frame:
  "channels (snd (addFile i r t m d s)) = channels s"
  "joiningQueue (snd (addFile i r t m d s)) = joiningQueue s"
  "inflight (snd (addFile i r t m d s)) = inflight s"
  "promises (snd (addFile i r t m d s)) = promises s"
  "log_calls (snd (addFile i r t m d s)) = log_calls s"
  "joined_count cn (snd (addFile i r t m d s)) = joined_count cn s"
  using addFile_state[of i r t m d s] by (auto simp: postMessage_frame)

lemma poll_tick_frame:
  "channels (poll_tick r s) = channels s"
  "joiningQueue (poll_tick r s) = joiningQueue s"
  "inflight (poll_tick r s) = inflight s"
  "promises (poll_tick r s) = promises s"
  "log_calls (poll_tick r s) = log_calls s"
  "joined_count cn (poll_tick r s) = joined_count cn s"
  by (auto simp: poll_tick_def Let_def joined_count_def is_joined_def)

subsection \<open>The invariant of reachable states\<close>

lemma inflight_inv_join: "inflight_inv s \<Longrightarrow> inflight_inv (snd (join lr cn s))"
  unfolding inflight_inv_def join_def get_prop_def
  by (auto simp: Let_def nth_append split: option.splits if_splits) (meson less_SucI)+

lemma inflight_inv_open_resolved: "inflight_inv s \<Longrightarrow> inflight_inv (open_resolved p f s)"
  unfolding inflight_inv_def open_resolved_def settle_def
  by (auto simp: Let_def split: option.splits if_splits) (metis option.inject)+

lemma inflight_inv_open_rejected: "inflight_inv s \<Longrightarrow> inflight_inv (open_rejected p s)"
  unfolding inflight_inv_def open_rejected_def
  by (auto split: option.splits if_splits)

lemma inflight_inv_step: "inflight_inv s \<Longrightarrow> inflight_inv (step a s)"
proof (cases a)
  case (Connect x1 x2 x3)
  assume "inflight_inv s"
  then show ?thesis unfolding Connect inflight_inv_def by (simp add: connect_frame)
next
  case (Disconnect x)
  assume "inflight_inv s"
  then show ?thesis unfolding Disconnect inflight_inv_def by (simp add: disconnect_frame)
next
  case (Join x1 x2)
  assume "inflight_inv s"
  then show ?thesis unfolding Join by (simp add: inflight_inv_join)
next
  case (Leave x1 x2)
  assume "inflight_inv s"
  then show ?thesis unfolding Leave inflight_inv_def by (simp add: leave_frame)
next
  case (Send x1 x2 x3 x4)
  assume "inflight_inv s"
  then show ?thesis unfolding Send inflight_inv_def by (simp add: send_frame)
next
  case (AddFile x1 x2 x3 x4 x5)
  assume "inflight_inv s"
  then show ?thesis unfolding AddFile inflight_inv_def by (simp add: addFile_frame)
next
  case (OpenResolved x1 x2)
  assume "inflight_inv s"
  then show ?thesis unfolding OpenResolved by (simp add: inflight_inv_open_resolved)
next
  case (OpenRejected x)
  assume "inflight_inv s"
  then show ?thesis unfolding OpenRejected by (simp add: inflight_inv_open_rejected)
next
  case (PollTick x)
  assume "inflight_inv s"
  then show ?thesis unfolding PollTick inflight_inv_def by (simp add: poll_tick_frame)
qed

lemma inflight_inv_run: "inflight_inv s \<Longrightarrow> inflight_inv (run acts s)"
  unfolding run_def by (induction acts arbitrary: s) (simp_all add: inflight_inv_step)

lemma inflight_inv_constructor: "inflight_inv constructor"
  by (simp add: inflight_inv_def constructor_def)

lemma reachable_inv: "s = run pre constructor \<Longrightarrow> inflight_inv s"
  by (simp add: inflight_inv_run inflight_inv_constructor)

lemma inflight_invD:
  "inflight_inv s \<Longrightarrow> inflight s p = Some n \<Longrightarrow>
     joiningQueue s n = Some p \<and> channels s n = None \<and>
     n \<notin> set object_prototype_names \<and> n \<noteq> [] \<and>
     p < length (promises s) \<and> promises s ! p = Pending"
  unfolding inflight_inv_def by blast

subsection \<open>A stuck entry stays, a pending one waits for its answer\<close>

lemma stuck_join_same: "stuck cn p s \<Longrightarrow> join lr cn s = (From_queue (Own p), s)"
  by (simp add: stuck_def join_def get_prop_def)

lemma pending_join_same: "pending cn p s \<Longrightarrow> join lr cn s = (From_queue (Own p), s)"
  by (simp add: pending_def join_def get_prop_def)

lemma stuck_join:
  "stuck cn p s \<Longrightarrow>
   stuck cn p (snd (join lr m s)) \<and> same_history cn p s (snd (join lr m s))"
  unfolding stuck_def same_history_def join_def get_prop_def open_count_def joined_count_def
  by (auto simp: Let_def nth_append split: option.splits if_splits)

lemma stuck_open_resolved:
  "stuck cn p s \<Longrightarrow> stuck cn p (open_resolved q f s) \<and> same_history cn p s (open_resolved q f s)"
  unfolding stuck_def same_history_def open_resolved_def settle_def open_count_def joined_count_def
  by (auto simp: Let_def is_joined_def split: option.splits if_splits)

lemma stuck_open_rejected:
  "stuck cn p s \<Longrightarrow> stuck cn p (open_rejected q s) \<and> same_history cn p s (open_rejected q s)"
  unfolding stuck_def same_history_def open_rejected_def open_count_def joined_count_def
  by (auto split: option.splits if_splits)

lemma stuck_step: "stuck cn p s \<Longrightarrow> stuck cn p (step a s) \<and> same_history cn p s (step a s)"
proof (cases a)
  case (Connect x1 x2 x3)
  assume "stuck cn p s"
  then show ?thesis unfolding Connect stuck_def same_history_def open_count_def
    by (simp add: connect_frame)
next
  case (Disconnect x)
  assume "stuck cn p s"
  then show ?thesis unfolding Disconnect stuck_def same_history_def open_count_def
    by (simp add: disconnect_frame)
next
  case (Join x1 x2)
  assume "stuck cn p s"
  then show ?thesis unfolding Join by (simp add: stuck_join)
next
  case (Leave x1 x2)
  assume "stuck cn p s"
  then show ?thesis unfolding Leave stuck_def same_history_def open_count_def
    by (simp add: leave_frame)
next
  case (Send x1 x2 x3 x4)
  assume "stuck cn p s"
  then show ?thesis unfolding Send stuck_def same_history_def open_count_def
    by (simp add: send_frame)
next
  case (AddFile x1 x2 x3 x4 x5)
  assume "stuck cn p s"
  then show ?thesis unfolding AddFile stuck_def same_history_def open_count_def
    by (simp add: addFile_frame)
next
  case (OpenResolved x1 x2)
  assume "stuck cn p s"
  then show ?thesis unfolding OpenResolved by (simp add: stuck_open_resolved)
next
  case (OpenRejected x)
  assume "stuck cn p s"
  then show ?thesis unfolding OpenRejected by (simp add: stuck_open_rejected)
next
  case (PollTick x)
  assume "stuck cn p s"
  then show ?thesis unfolding PollTick stuck_def same_history_def open_count_def
    by (simp add: poll_tick_frame)
qed

lemma same_history_refl: "same_history cn p s s"
  by (simp add: same_history_def)

lemma same_history_trans:
  "same_history cn p s s1 \<Longrightarrow> same_history cn p s1 s2 \<Longrightarrow> same_history cn p s s2"
  by (simp add: same_history_def)

lemma stuck_run: "stuck cn p s \<Longrightarrow> stuck cn p (run acts s) \<and> same_history cn p s (run acts s)"
proof (induction acts arbitrary: s)
  case Nil
  then show ?case by (simp add: run_def same_history_refl)
next
  case (Cons a acts)
  from Cons.prems have 1: "stuck cn p (step a s)" and 2: "same_history cn p s (step a s)"
    using stuck_step by blast+
  from Cons.IH[OF 1] have 3: "stuck cn p (run acts (step a s))"
    and 4: "same_history cn p (step a s) (run acts (step a s))" by blast+
  have "run (a # acts) s = run acts (step a s)" by (simp add: run_def)
  with 3 same_history_trans[OF 2 4] show ?case by simp
qed

lemma pending_join:
  "pending cn p s \<Longrightarrow>
   pending cn p (snd (join lr m s)) \<and> same_history cn p s (snd (join lr m s))"
  unfolding pending_def same_history_def join_def get_prop_def open_count_def joined_count_def
  by (auto simp: Let_def nth_append split: option.splits if_splits)

lemma pending_open_resolved:
  "pending cn p s \<Longrightarrow> q \<noteq> p \<Longrightarrow>
   pending cn p (open_resolved q f s) \<and> same_history cn p s (open_resolved q f s)"
  unfolding pending_def same_history_def open_resolved_def settle_def open_count_def joined_count_def
  by (auto simp: Let_def is_joined_def split: option.splits if_splits)

lemma pending_open_rejected:
  "pending cn p s \<Longrightarrow> q \<noteq> p \<Longrightarrow>
   pending cn p (open_rejected q s) \<and> same_history cn p s (open_rejected q s)"
  unfolding pending_def same_history_def open_rejected_def open_count_def joined_count_def
  by (auto split: option.splits if_splits)

lemma pending_step:
  "pending cn p s \<Longrightarrow> \<not> answers p a \<Longrightarrow>
   pending cn p (step a s) \<and> same_history cn p s (step a s)"
proof (cases a)
  case (Connect x1 x2 x3)
  assume "pending cn p s"
  then show ?thesis unfolding Connect pending_def same_history_def open_count_def
    by (simp add: connect_frame)
next
  case (Disconnect x)
  assume "pending cn p s"
  then show ?thesis unfolding Disconnect pending_def same_history_def open_count_def
    by (simp add: disconnect_frame)
next
  case (Join x1 x2)
  assume "pending cn p s"
  then show ?thesis unfolding Join by (simp add: pending_join)
next
  case (Leave x1 x2)
  assume "pending cn p s"
  then show ?thesis unfolding Leave pending_def same_history_def open_count_def
    by (simp add: leave_frame)
next
  case (Send x1 x2 x3 x4)
  assume "pending cn p s"
  then show ?thesis unfolding Send pending_def same_history_def open_count_def
    by (simp add: send_frame)
next
  case (AddFile x1 x2 x3 x4 x5)
  assume "pending cn p s"
  then show ?thesis unfolding AddFile pending_def same_history_def open_count_def
    by (simp add: addFile_frame)
next
  case (OpenResolved x1 x2)
  assume "pending cn p s" "\<not> answers p a"
  then show ?thesis unfolding OpenResolved by (simp add: pending_open_resolved)
next
  case (OpenRejected x)
  assume "pending cn p s" "\<not> answers p a"
  then show ?thesis unfolding OpenRejected by (simp add: pending_open_rejected)
next
  case (PollTick x)
  assume "pending cn p s"
  then show ?thesis unfolding PollTick pending_def same_history_def open_count_def
    by (simp add: poll_tick_frame)
qed

lemma pending_run:
  "pending cn p s \<Longrightarrow> \<forall>a \<in> set acts. \<not> answers p a \<Longrightarrow>
   pending cn p (run acts s) \<and> same_history cn p s (run acts s)"
proof (induction acts arbitrary: s)
  case Nil
  then show ?case by (simp add: run_def same_history_refl)
next
  case (Cons a acts)
  from Cons.prems have 1: "pending cn p (step a s)" and 2: "same_history cn p s (step a s)"
    using pending_step[of cn p s a] by auto
  from Cons.prems have "\<forall>a \<in> set acts. \<not> answers p a" by simp
  from Cons.IH[OF 1 this] have 3: "pending cn p (run acts (step a s))"
    and 4: "same_history cn p (step a s) (run acts (step a s))" by blast+
  have "run (a # acts) s = run acts (step a s)" by (simp add: run_def)
  with 3 same_history_trans[OF 2 4] show ?case by simp
qed

subsection \<open>Entering the pending and the stuck state\<close>

lemma join_opens:
  assumes "orbitdb s \<noteq> None" "cn \<noteq> []" "get_prop (channels s) cn = Undefined"
    "get_prop (joiningQueue s) cn = Undefined"
  shows "join None cn s =
     (From_queue (Own (length (promises s))),
      s\<lparr>promises := promises s @ [Pending],
        log_calls := log_calls s @ [cn],
        inflight := (inflight s)(length (promises s) \<mapsto> cn),
        joiningQueue := (joiningQueue s)(cn \<mapsto> length (promises s))\<rparr>)"
  using assms by (auto simp: join_def Let_def)

lemma join_null_handle:
  assumes "orbitdb s = None" "cn \<noteq> []" "get_prop (channels s) cn = Undefined"
    "get_prop (joiningQueue s) cn = Undefined"
  shows "join lr cn s =
     (From_queue (Own (length (promises s))),
      s\<lparr>promises := promises s @ [Rejected TypeError],
        joiningQueue := (joiningQueue s)(cn \<mapsto> length (promises s))\<rparr>)"
  using assms by (auto simp: join_def Let_def)

lemma join_log_throws:
  assumes "orbitdb s \<noteq> None" "cn \<noteq> []" "get_prop (channels s) cn = Undefined"
    "get_prop (joiningQueue s) cn = Undefined"
  shows "join (Some e) cn s =
     (From_queue (Own (length (promises s))),
      s\<lparr>promises := promises s @ [Rejected e],
        log_calls := log_calls s @ [cn],
        joiningQueue := (joiningQueue s)(cn \<mapsto> length (promises s))\<rparr>)"
  using assms by (auto simp: join_def Let_def)

lemma pending_after_join:
  assumes inv: "inflight_inv s" and "orbitdb s \<noteq> None" "cn \<noteq> []"
    "get_prop (channels s) cn = Undefined" "get_prop (joiningQueue s) cn = Undefined"
  shows "pending cn (length (promises s)) (snd (join None cn s))"
proof -
  have q: "joiningQueue s cn = None" and c: "channels s cn = None"
    and n: "cn \<notin> set object_prototype_names"
    using assms by (simp_all add: get_prop_Undefined)
  have u: "inflight s r \<noteq> Some cn" for r
    using inflight_invD[OF inv, of r cn] q by auto
  show ?thesis
    unfolding join_opens[OF assms(2-5)] pending_def using q c n u assms(3) by simp
qed

lemma stuck_entry:
  assumes inv: "inflight_inv s" and "cn \<noteq> []"
    "get_prop (channels s) cn = Undefined" "get_prop (joiningQueue s) cn = Undefined"
    and s': "joiningQueue s' = (joiningQueue s)(cn \<mapsto> length (promises s))"
      "channels s' = channels s" "inflight s' = inflight s"
      "length (promises s') = Suc (length (promises s))"
  shows "stuck cn (length (promises s)) s'"
proof -
  have q: "joiningQueue s cn = None" and c: "channels s cn = None"
    and n: "cn \<notin> set object_prototype_names"
    using assms by (simp_all add: get_prop_Undefined)
  have u: "inflight s r \<noteq> Some cn" for r
    using inflight_invD[OF inv, of r cn] q by auto
  have f: "inflight s (length (promises s)) = None"
  proof (cases "inflight s (length (promises s))")
    case None then show ?thesis .
  next
    case (Some m)
    from inflight_invD[OF inv Some] show ?thesis by simp
  qed
  show ?thesis unfolding stuck_def using q c n u f assms(2) s' by simp
qed

lemma stuck_after_rejection:
  assumes inv: "inflight_inv s" and i: "inflight s p = Some cn"
  shows "stuck cn p (open_rejected p s)"
proof -
  note d = inflight_invD[OF inv i]
  have u: "inflight s r \<noteq> Some cn" if "r \<noteq> p" for r
  proof
    assume "inflight s r = Some cn"
    from inflight_invD[OF inv this] d that show False by simp
  qed
  show ?thesis unfolding stuck_def using d i u by (auto simp: open_rejected_def)
qed

lemma open_resolved_pending:
  assumes "pending cn p s"
  shows "open_resolved p f s =
     s\<lparr>channels := (channels s)(cn \<mapsto> \<lparr>channelName = cn, feed = f\<rparr>),
       events := events s @ [Joined cn \<lparr>channelName = cn, feed = f\<rparr>],
       joiningQueue := (joiningQueue s)(cn := None),
       promises := (promises s)[p := Fulfilled \<lparr>channelName = cn, feed = f\<rparr>],
       inflight := (inflight s)(p := None)\<rparr>"
  using assms by (simp add: pending_def open_resolved_def settle_def Let_def)

section \<open>The claims\<close>

subsection \<open>C1: concurrent joins of one name share one call to the store\<close>

text \<open>
  Claim C1, amended. Let \<open>cn\<close> be a non-empty name that \<open>Object.prototype\<close> does not
  define. On a connected instance, let \<open>join(cn)\<close> be called while \<open>cn\<close> has neither a
  Channel nor an entry in \<open>_joiningQueue\<close>, let the store's \<open>log\<close> return a promise, and
  let any steps \<open>acts\<close> follow before the store answers that call. Then the first call
  returns a new promise \<open>p\<close> and makes one call to the store; a \<open>join(cn)\<close> arriving
  after any number of those steps returns the same promise \<open>p\<close> and changes nothing,
  while \<open>_joiningQueue\<close> holds the one entry \<open>p\<close> for \<open>cn\<close> and \<open>_channels\<close> none; the
  number of calls to the store for \<open>cn\<close> has grown by exactly one and no \<open>joined\<close>
  event for \<open>cn\<close> was emitted. When the store answers with the log handle \<open>f\<close>, one
  \<open>joined\<close> event is emitted, \<open>p\<close> is fulfilled with the Channel that \<open>_channels\<close> now
  holds for \<open>cn\<close>, the entry in \<open>_joiningQueue\<close> is gone, and a later \<open>join(cn)\<close>
  resolves to that Channel. An object holds one property for a key, so neither map can
  hold two entries for \<open>cn\<close>.
\<close>

theorem join_coalescing:
  assumes reach: "s0 = run pre constructor"
    and conn: "orbitdb s0 \<noteq> None"
    and nm: "cn \<noteq> []"
    and proto: "cn \<notin> set object_prototype_names"
    and noch: "channels s0 cn = None"
    and nopj: "joiningQueue s0 cn = None"
    and later: "\<forall>a \<in> set acts. \<not> answers (length (promises s0)) a"
  shows "let p = length (promises s0);
             s1 = snd (join None cn s0);
             s2 = run acts s1;
             c = \<lparr>channelName = cn, feed = f\<rparr>;
             s3 = open_resolved p f s2
         in fst (join None cn s0) = From_queue (Own p)
          \<and> open_count cn s1 = open_count cn s0 + 1
          \<and> (\<forall>k \<le> length acts.
                join lr cn (run (take k acts) s1) = (From_queue (Own p), run (take k acts) s1)
              \<and> joiningQueue (run (take k acts) s1) cn = Some p
              \<and> channels (run (take k acts) s1) cn = None
              \<and> promises (run (take k acts) s1) ! p = Pending)
          \<and> open_count cn s2 = open_count cn s0 + 1
          \<and> joined_count cn s2 = joined_count cn s0
          \<and> events s3 = events s2 @ [Joined cn c]
          \<and> joined_count cn s3 = joined_count cn s0 + 1
          \<and> open_count cn s3 = open_count cn s0 + 1
          \<and> channels s3 cn = Some c
          \<and> joiningQueue s3 cn = None
          \<and> promises s3 ! p = Fulfilled c
          \<and> join lr cn s3 = (Fresh_resolved (Own c), s3)"
proof -
  define p where "p = length (promises s0)"
  define s1 where "s1 = snd (join None cn s0)"
  define s2 where "s2 = run acts s1"
  define c where "c = \<lparr>channelName = cn, feed = f\<rparr>"
  define s3 where "s3 = open_resolved p f s2"
  have inv: "inflight_inv s0" using reach by (rule reachable_inv)
  have gc: "get_prop (channels s0) cn = Undefined"
    and gq: "get_prop (joiningQueue s0) cn = Undefined"
    using proto noch nopj by (simp_all add: get_prop_Undefined)
  have j: "join None cn s0 = (From_queue (Own p),
      s0\<lparr>promises := promises s0 @ [Pending],
        log_calls := log_calls s0 @ [cn],
        inflight := (inflight s0)(p \<mapsto> cn),
        joiningQueue := (joiningQueue s0)(cn \<mapsto> p)\<rparr>)"
    unfolding p_def by (rule join_opens[OF conn nm gc gq])
  have r1: "fst (join None cn s0) = From_queue (Own p)" using j by simp
  have r2: "open_count cn s1 = open_count cn s0 + 1"
    unfolding s1_def j by (simp add: open_count_def)
  have j1: "joined_count cn s1 = joined_count cn s0"
    unfolding s1_def j by (simp add: joined_count_def)
  have p1: "pending cn p s1"
    unfolding p_def s1_def by (rule pending_after_join[OF inv conn nm gc gq])
  have mid: "pending cn p (run (take k acts) s1)" for k
  proof -
    have "\<forall>a \<in> set (take k acts). \<not> answers p a"
      using later in_set_takeD unfolding p_def by fast
    from pending_run[OF p1 this] show ?thesis by simp
  qed
  have r3: "\<forall>k \<le> length acts.
                join lr cn (run (take k acts) s1) = (From_queue (Own p), run (take k acts) s1)
              \<and> joiningQueue (run (take k acts) s1) cn = Some p
              \<and> channels (run (take k acts) s1) cn = None
              \<and> promises (run (take k acts) s1) ! p = Pending"
    using mid pending_join_same by (simp add: pending_def)
  have "\<forall>a \<in> set acts. \<not> answers p a" using later unfolding p_def .
  from pending_run[OF p1 this] have p2: "pending cn p s2" and h2: "same_history cn p s1 s2"
    unfolding s2_def by simp_all
  have r4: "open_count cn s2 = open_count cn s0 + 1"
    and r5: "joined_count cn s2 = joined_count cn s0"
    using h2 r2 j1 by (simp_all add: same_history_def)
  have o: "s3 = s2\<lparr>channels := (channels s2)(cn \<mapsto> c),
       events := events s2 @ [Joined cn c],
       joiningQueue := (joiningQueue s2)(cn := None),
       promises := (promises s2)[p := Fulfilled c],
       inflight := (inflight s2)(p := None)\<rparr>"
    unfolding s3_def c_def by (rule open_resolved_pending[OF p2])
  have r6: "events s3 = events s2 @ [Joined cn c]" unfolding o by simp
  have r7: "joined_count cn s3 = joined_count cn s0 + 1"
    using r5 unfolding o by (simp add: joined_count_def is_joined_def)
  have r8: "open_count cn s3 = open_count cn s0 + 1"
    using r4 unfolding o by (simp add: open_count_def)
  have r9: "channels s3 cn = Some c" and r10: "joiningQueue s3 cn = None"
    unfolding o by simp_all
  have r11: "promises s3 ! p = Fulfilled c"
    using p2 unfolding o by (simp add: pending_def)
  have r12: "join lr cn s3 = (Fresh_resolved (Own c), s3)"
    using r9 nm by (simp add: join_def get_prop_def)
  show ?thesis
    using r1 r2 r3 r4 r5 r6 r7 r8 r9 r10 r11 r12
    unfolding Let_def p_def[symmetric] s1_def[symmetric] s2_def[symmetric] c_def[symmetric]
      s3_def[symmetric]
    by blast
qed

text \<open>
  C1, amended, at a concrete run: alice is connected, \<open>join('general')\<close> is called three
  times with a join of another channel and a \<open>send\<close> in between, then the store answers
  with log 5.
\<close>

theorem join_coalescing_witness:
  "alice_connected = run [Connect (Inr 7) (Inr 9) (CredString ''alice'')] constructor
 \<and> orbitdb alice_connected \<noteq> None
 \<and> ''general'' \<noteq> []
 \<and> ''general'' \<notin> set object_prototype_names
 \<and> channels alice_connected ''general'' = None
 \<and> joiningQueue alice_connected ''general'' = None
 \<and> filter (answers (length (promises alice_connected)))
      [Join None ''general'', Join None ''random'', Send (Inr 0) 1000 ''general'' ''hi'',
       Join (Some TypeError) ''general''] = []
 \<and> (let s1 = snd (join None ''general'' alice_connected);
         s2 = run [Join None ''general'', Join None ''random'',
                   Send (Inr 0) 1000 ''general'' ''hi'', Join (Some TypeError) ''general''] s1;
         s3 = open_resolved 0 5 s2
     in fst (join None ''general'' alice_connected) = From_queue (Own 0)
      \<and> join None ''general'' s2 = (From_queue (Own 0), s2)
      \<and> open_count ''general'' s2 = 1
      \<and> joined_count ''general'' s2 = 0
      \<and> joined_count ''general'' s3 = 1
      \<and> channels s3 ''general'' = Some general
      \<and> promises s3 ! 0 = Fulfilled general
      \<and> joiningQueue s3 ''general'' = None)"
proof -
  let ?acts = "[Join None ''general'', Join None ''random'',
                Send (Inr 0) 1000 ''general'' ''hi'', Join (Some TypeError) ''general'']"
  have h1: "alice_connected = run [Connect (Inr 7) (Inr 9) (CredString ''alice'')] constructor"
    by (simp add: alice_connected_def)
  have h2: "orbitdb alice_connected \<noteq> None" by (simp add: alice_connected_eq)
  have h3: "''general'' \<noteq> []" by simp
  have h4: "''general'' \<notin> set object_prototype_names"
    by (simp add: object_prototype_names_def)
  have h5: "channels alice_connected ''general'' = None"
    and h6: "joiningQueue alice_connected ''general'' = None"
    by (simp_all add: alice_connected_eq)
  have h7: "\<forall>a \<in> set ?acts. \<not> answers (length (promises alice_connected)) a" by simp
  have p0: "length (promises alice_connected) = 0" by (simp add: alice_connected_eq)
  have o0: "open_count ''general'' alice_connected = 0"
    and j0: "joined_count ''general'' alice_connected = 0"
    by (simp_all add: alice_connected_eq open_count_def joined_count_def is_joined_def alice_def)
  note w = join_coalescing[OF h1 h2 h3 h4 h5 h6 h7, where f = 5 and lr = None,
      unfolded Let_def p0 o0 j0]
  note wk = w[THEN conjunct2, THEN conjunct2, THEN conjunct1, rule_format, of 4]
  have k4: "run (take 4 ?acts) s = run ?acts s" for s by simp
  have a4: "join None ''general'' (run ?acts (snd (join None ''general'' alice_connected)))
     = (From_queue (Own 0), run ?acts (snd (join None ''general'' alice_connected)))"
    using wk unfolding k4 by simp
  show ?thesis
    unfolding Let_def
    using h1 h2 h4 h5 h6 w a4 by (simp add: general_def)
qed

text \<open>
  Claim C1 as the spec words it fails at four inputs. On alice's connected instance,
  \<open>join('toString')\<close> finds the function inherited from \<open>Object.prototype\<close> in
  \<open>_channels\<close>: it resolves with that built-in, makes no call to the store and creates
  no entry in \<open>_joiningQueue\<close>, so every caller gets a promise of its own and no Channel.
  On a new instance, not connected, two calls of \<open>join('general')\<close> share one promise,
  but no call reaches the store, the promise is rejected and no Channel exists. On
  alice's connected instance with a store whose \<open>log\<close> throws, the two callers share a
  rejected promise and no Channel exists. And when the store rejects the call made for
  \<open>join('general')\<close>, the promise the callers share stays pending, no Channel exists and
  no \<open>joined\<close> event was emitted.
\<close>

theorem join_coalescing_counterexample:
  "channels alice_connected ''toString'' = None
 \<and> joiningQueue alice_connected ''toString'' = None
 \<and> join None ''toString'' alice_connected = (Fresh_resolved Inherited, alice_connected)
 \<and> log_calls alice_connected = []
 \<and> fst (join None ''general'' constructor) = From_queue (Own 0)
 \<and> join None ''general'' (snd (join None ''general'' constructor))
     = (From_queue (Own 0), snd (join None ''general'' constructor))
 \<and> log_calls (snd (join None ''general'' constructor)) = []
 \<and> promises (snd (join None ''general'' constructor)) = [Rejected TypeError]
 \<and> channels (snd (join None ''general'' constructor)) ''general'' = None
 \<and> fst (join (Some (CollaboratorError 0)) ''general'' alice_connected) = From_queue (Own 0)
 \<and> join None ''general'' (snd (join (Some (CollaboratorError 0)) ''general'' alice_connected))
     = (From_queue (Own 0), snd (join (Some (CollaboratorError 0)) ''general'' alice_connected))
 \<and> log_calls (snd (join (Some (CollaboratorError 0)) ''general'' alice_connected))
     = [''general'']
 \<and> promises (snd (join (Some (CollaboratorError 0)) ''general'' alice_connected))
     = [Rejected (CollaboratorError 0)]
 \<and> channels (snd (join (Some (CollaboratorError 0)) ''general'' alice_connected)) ''general''
     = None
 \<and> join None ''general'' (open_rejected 0 (snd (join None ''general'' alice_connected)))
     = (From_queue (Own 0), open_rejected 0 (snd (join None ''general'' alice_connected)))
 \<and> promises (open_rejected 0 (snd (join None ''general'' alice_connected))) = [Pending]
 \<and> channels (open_rejected 0 (snd (join None ''general'' alice_connected))) ''general'' = None
 \<and> events (open_rejected 0 (snd (join None ''general'' alice_connected)))
     = [Connected alice]"
  by (simp add: alice_connected_eq)
     (simp add: join_def open_rejected_def get_prop_def object_prototype_names_def
        constructor_def Let_def)

subsection \<open>C9: a join whose call to the store fails stays in the queue for ever\<close>

text \<open>
  Claim C9. In a reachable state, let the call to the store made for \<open>join(cn)\<close> fail in
  one of three ways: \<open>join(cn)\<close> is called while \<open>_orbitdb\<close> is null, so that the call
  throws a TypeError inside the executor of the new promise \<open>p\<close>; or \<open>join(cn)\<close> is
  called with a store handle and the call of \<open>log\<close> throws \<open>e\<close> there; or the store
  rejects the call in flight for the promise \<open>p\<close> of \<open>cn\<close>. Then after any further
  steps \<open>acts\<close> the entry \<open>p\<close> is still in \<open>_joiningQueue\<close> and \<open>cn\<close> has no Channel;
  \<open>join(cn)\<close> returns that same promise and changes nothing, whatever the store would
  do; the promise is still rejected with the error thrown (first two cases) or pending
  (third case); and neither a further call to the store for \<open>cn\<close> nor a \<open>joined\<close>
  event for \<open>cn\<close> has occurred.
\<close>

theorem failed_open_stays_stuck:
  assumes reach: "s = run pre constructor"
    and fail: "(cn \<noteq> [] \<and> get_prop (channels s) cn = Undefined \<and>
                get_prop (joiningQueue s) cn = Undefined \<and> p = length (promises s) \<and>
                ((orbitdb s = None \<and> e = TypeError \<and> s1 = snd (join log_res cn s)) \<or>
                 (orbitdb s \<noteq> None \<and> s1 = snd (join (Some e) cn s))))
             \<or> (inflight s p = Some cn \<and> s1 = open_rejected p s)"
  shows "let s2 = run acts s1
         in joiningQueue s2 cn = Some p
          \<and> channels s2 cn = None
          \<and> join lr cn s2 = (From_queue (Own p), s2)
          \<and> promises s2 ! p = (if inflight s p = Some cn then Pending else Rejected e)
          \<and> open_count cn s2 = open_count cn s1
          \<and> joined_count cn s2 = joined_count cn s"
proof -
  have inv: "inflight_inv s" using reach by (rule reachable_inv)
  have 1: "stuck cn p s1 \<and> joined_count cn s1 = joined_count cn s \<and>
           promises s1 ! p = (if inflight s p = Some cn then Pending else Rejected e)"
    using fail
  proof (elim disjE conjE)
    assume n: "cn \<noteq> []" and c: "get_prop (channels s) cn = Undefined"
      and q: "get_prop (joiningQueue s) cn = Undefined" and p: "p = length (promises s)"
      and o: "orbitdb s = None" and e: "e = TypeError" and s1: "s1 = snd (join log_res cn s)"
    have i: "inflight s p \<noteq> Some cn"
      using inflight_invD[OF inv, of p cn] q by (auto simp: get_prop_Undefined)
    have "stuck cn p s1"
      unfolding s1 join_null_handle[OF o n c q] p
      by (rule stuck_entry[OF inv n c q]) simp_all
    then show ?thesis
      using i unfolding s1 join_null_handle[OF o n c q] p e
      by (simp add: joined_count_def)
  next
    assume n: "cn \<noteq> []" and c: "get_prop (channels s) cn = Undefined"
      and q: "get_prop (joiningQueue s) cn = Undefined" and p: "p = length (promises s)"
      and o: "orbitdb s \<noteq> None" and s1: "s1 = snd (join (Some e) cn s)"
    have i: "inflight s p \<noteq> Some cn"
      using inflight_invD[OF inv, of p cn] q by (auto simp: get_prop_Undefined)
    have "stuck cn p s1"
      unfolding s1 join_log_throws[OF o n c q] p
      by (rule stuck_entry[OF inv n c q]) simp_all
    then show ?thesis
      using i unfolding s1 join_log_throws[OF o n c q] p
      by (simp add: joined_count_def)
  next
    assume i: "inflight s p = Some cn" and s1: "s1 = open_rejected p s"
    have st: "stuck cn p s1" unfolding s1 by (rule stuck_after_rejection[OF inv i])
    show ?thesis
      using st inflight_invD[OF inv i] i unfolding s1
      by (simp add: open_rejected_def joined_count_def)
  qed
  then have st: "stuck cn p s1" by simp
  from stuck_run[OF st, of acts]
  have 2: "stuck cn p (run acts s1)" and 3: "same_history cn p s1 (run acts s1)" by simp_all
  show ?thesis
    using 1 2 3 stuck_join_same[OF 2]
    by (simp add: Let_def stuck_def same_history_def)
qed

text \<open>
  C9 at three concrete runs: \<open>join('general')\<close> before any \<open>connect\<close>, followed by a
  successful \<open>connect\<close>; a join on alice's connected instance where \<open>log\<close> throws,
  followed by a \<open>disconnect\<close>; and a join on alice's connected instance that the store
  rejects, followed by the join of another channel.
\<close>

theorem failed_open_stays_stuck_witness:
  "constructor = run [] constructor
 \<and> orbitdb constructor = None
 \<and> orbitdb alice_connected = Some 9
 \<and> get_prop (channels constructor) ''general'' = Undefined
 \<and> get_prop (joiningQueue constructor) ''general'' = Undefined
 \<and> get_prop (channels alice_connected) ''general'' = Undefined
 \<and> get_prop (joiningQueue alice_connected) ''general'' = Undefined
 \<and> inflight (snd (join None ''general'' alice_connected)) 0 = Some ''general''
 \<and> (let s2 = run [Connect (Inr 7) (Inr 9) (CredString ''alice'')]
                 (snd (join None ''general'' constructor))
     in orbitdb s2 = Some 9
      \<and> join None ''general'' s2 = (From_queue (Own 0), s2)
      \<and> promises s2 ! 0 = Rejected TypeError
      \<and> open_count ''general'' s2 = 0)
 \<and> (let s2 = run [Disconnect None]
                 (snd (join (Some (CollaboratorError 3)) ''general'' alice_connected))
     in join None ''general'' s2 = (From_queue (Own 0), s2)
      \<and> promises s2 ! 0 = Rejected (CollaboratorError 3)
      \<and> open_count ''general'' s2 = 1
      \<and> joined_count ''general'' s2 = 0)
 \<and> (let s2 = run [Join None ''random'']
                 (open_rejected 0 (snd (join None ''general'' alice_connected)))
     in join None ''general'' s2 = (From_queue (Own 0), s2)
      \<and> promises s2 ! 0 = Pending
      \<and> open_count ''general'' s2 = 1
      \<and> joined_count ''general'' s2 = 0)"
proof -
  let ?c = "Connect (Inr 7) (Inr 9) (CredString ''alice'')"
  let ?s = "snd (join None ''general'' alice_connected)"
  let ?t = "snd (join (Some (CollaboratorError 3)) ''general'' alice_connected)"
  have h1: "constructor = run [] constructor" by (simp add: run_def)
  have g: "orbitdb constructor = None"
    "get_prop (channels constructor) ''general'' = Undefined"
    "get_prop (joiningQueue constructor) ''general'' = Undefined"
    "0 = length (promises constructor)"
    "inflight constructor 0 \<noteq> Some ''general''"
    "open_count ''general'' constructor = 0"
    by (simp_all add: constructor_def get_prop_def object_prototype_names_def open_count_def)
  have h2: "(''general'' \<noteq> [] \<and> get_prop (channels constructor) ''general'' = Undefined \<and>
             get_prop (joiningQueue constructor) ''general'' = Undefined \<and>
             0 = length (promises constructor) \<and>
             ((orbitdb constructor = None \<and> TypeError = TypeError \<and>
               snd (join None ''general'' constructor) = snd (join None ''general'' constructor)) \<or>
              (orbitdb constructor \<noteq> None \<and>
               snd (join None ''general'' constructor) = snd (join (Some TypeError) ''general'' constructor))))
          \<or> (inflight constructor 0 = Some ''general'' \<and>
              snd (join None ''general'' constructor) = open_rejected 0 constructor)"
    using g by simp
  note w1 = failed_open_stays_stuck[OF h1 h2, where acts = "[?c]" and lr = None,
      unfolded Let_def]
  have o: "orbitdb (run [?c] (snd (join None ''general'' constructor))) = Some 9"
    by (simp add: op_defs)
  have c1: "open_count ''general'' (snd (join None ''general'' constructor)) = 0"
    by (simp add: join_def get_prop_def object_prototype_names_def constructor_def
        open_count_def Let_def)
  have a: "orbitdb alice_connected = Some 9"
    "get_prop (channels alice_connected) ''general'' = Undefined"
    "get_prop (joiningQueue alice_connected) ''general'' = Undefined"
    "0 = length (promises alice_connected)"
    "inflight alice_connected 0 \<noteq> Some ''general''"
    "joined_count ''general'' alice_connected = 0"
    by (simp_all add: alice_connected_eq get_prop_def object_prototype_names_def
        joined_count_def is_joined_def alice_def)
  have k0: "alice_connected = run [?c] constructor" by (simp add: alice_connected_def)
  have k1: "(''general'' \<noteq> [] \<and> get_prop (channels alice_connected) ''general'' = Undefined \<and>
             get_prop (joiningQueue alice_connected) ''general'' = Undefined \<and>
             0 = length (promises alice_connected) \<and>
             ((orbitdb alice_connected = None \<and> CollaboratorError 3 = TypeError \<and>
               ?t = snd (join None ''general'' alice_connected)) \<or>
              (orbitdb alice_connected \<noteq> None \<and> ?t = ?t)))
          \<or> (inflight alice_connected 0 = Some ''general'' \<and>
              ?t = open_rejected 0 alice_connected)"
    using a by simp
  note w2 = failed_open_stays_stuck[OF k0 k1, where acts = "[Disconnect None]" and lr = None,
      unfolded Let_def]
  have c2: "open_count ''general'' ?t = 1"
    by (simp add: alice_connected_eq)
       (simp add: join_def get_prop_def object_prototype_names_def open_count_def Let_def)
  have m0: "?s = run [?c, Join None ''general''] constructor"
    by (simp add: alice_connected_def run_def)
  have i: "inflight ?s 0 = Some ''general''"
    by (simp add: alice_connected_eq)
       (simp add: join_def get_prop_def object_prototype_names_def Let_def)
  have m1: "(''general'' \<noteq> [] \<and> get_prop (channels ?s) ''general'' = Undefined \<and>
             get_prop (joiningQueue ?s) ''general'' = Undefined \<and>
             0 = length (promises ?s) \<and>
             ((orbitdb ?s = None \<and> TypeError = TypeError \<and>
               open_rejected 0 ?s = snd (join None ''general'' ?s)) \<or>
              (orbitdb ?s \<noteq> None \<and> open_rejected 0 ?s = snd (join (Some TypeError) ''general'' ?s))))
          \<or> (inflight ?s 0 = Some ''general'' \<and> open_rejected 0 ?s = open_rejected 0 ?s)"
    using i by simp
  note w3 = failed_open_stays_stuck[OF m0 m1, where acts = "[Join None ''random'']"
      and lr = None, unfolded Let_def]
  have c3: "open_count ''general'' (open_rejected 0 ?s) = 1"
    "joined_count ''general'' ?s = 0"
    by (simp_all add: alice_connected_eq)
       (simp_all add: join_def get_prop_def object_prototype_names_def open_count_def
          open_rejected_def joined_count_def is_joined_def alice_def Let_def)
  show ?thesis
    unfolding Let_def using g a i o w1 w2 w3 c1 c2 c3 h1 by simp
qed

subsection \<open>C2: a failed connect leaves the instance connecting\<close>

lemma connect_while_connecting:
  "orbitdb s = None \<Longrightarrow> connecting s \<Longrightarrow> connect a b c s = (Inl AlreadyConnecting, s)"
  by (simp add: connect_def)

lemma failed_connect_keeps_flag:
  assumes "orbitdb s = None" and "\<not> connecting s" and "fst (connect a b c s) = Inl e"
  shows "connecting (snd (connect a b c s)) \<and> orbitdb (snd (connect a b c s)) = None"
  using assms
  by (auto simp: connect_def Let_def startPollingForPeers_def split: option.splits sum.splits if_splits)

lemma connecting_step:
  assumes "orbitdb s = None" and "connecting s"
  shows "orbitdb (step a s) = None \<and> connecting (step a s)"
proof (cases a)
  case (Connect x1 x2 x3)
  then show ?thesis using assms by (simp add: connect_while_connecting)
next
  case (Disconnect x)
  then show ?thesis using assms by (simp add: disconnect_def)
next
  case (Join x1 x2)
  then show ?thesis using assms
    by (simp add: join_def Let_def split: lookup.splits)
next
  case (Leave x1 x2)
  then show ?thesis using assms
    by (simp add: leave_def Let_def split: lookup.splits option.splits)
next
  case (Send x1 x2 x3 x4)
  then show ?thesis using assms
    by (simp add: send_def postMessage_def split: option.splits sum.splits)
next
  case (AddFile x1 x2 x3 x4 x5)
  have "snd (addFile x1 x2 x3 x4 x5 s) = s \<or>
        (\<exists>d. snd (addFile x1 x2 x3 x4 x5 s) = snd (postMessage x2 x4 d s))"
    by (rule addFile_state)
  moreover have "orbitdb (snd (postMessage x2 x4 d s)) = orbitdb s \<and>
                 connecting (snd (postMessage x2 x4 d s)) = connecting s" for d
    by (simp add: postMessage_def split: sum.splits)
  ultimately show ?thesis using assms AddFile by auto
next
  case (OpenResolved x1 x2)
  then show ?thesis using assms
    by (simp add: open_resolved_def Let_def split: option.splits)
next
  case (OpenRejected x)
  then show ?thesis using assms
    by (simp add: open_rejected_def split: option.splits)
next
  case (PollTick x)
  then show ?thesis using assms by (simp add: poll_tick_def Let_def)
qed

lemma connecting_run:
  "orbitdb s = None \<Longrightarrow> connecting s \<Longrightarrow>
   orbitdb (run acts s) = None \<and> connecting (run acts s)"
  unfolding run_def
  by (induction acts arbitrary: s) (simp_all add: connecting_step)

text \<open>
  Claim C2 says that after a failed \<open>connect\<close> a later \<open>connect\<close> with valid credentials
  succeeds. The code sets \<open>_connecting\<close> before it checks the username and never resets
  it on a failure: \<open>connect()\<close> without a username on a new instance fails with
  \<open>'username' not specified\<close>, and the \<open>connect('alice')\<close> that follows fails with
  \<open>Already connecting\<close>, also when \<open>disconnect()\<close> is called in between (it returns at
  once, the store handle being null).
\<close>

theorem connect_after_failed_connect:
  "fst (connect (Inr 7) (Inr 9) (CredObject None) constructor) = Inl UsernameNotSpecified
 \<and> fst (connect (Inr 7) (Inr 9) (CredString ''alice'')
          (snd (connect (Inr 7) (Inr 9) (CredObject None) constructor)))
     = Inl AlreadyConnecting
 \<and> fst (connect (Inr 7) (Inr 9) (CredString ''alice'')
          (snd (disconnect None (snd (connect (Inr 7) (Inr 9) (CredObject None) constructor)))))
     = Inl AlreadyConnecting"
  by (simp add: connect_def disconnect_def username_of_def constructor_def)

subsection \<open>C3: disconnect\<close>

text \<open>
  Claim C3, amended. \<open>disconnect()\<close> on an instance without store handle returns and
  changes nothing. With a store handle: when the store's own \<open>disconnect\<close> raises, the
  error reaches the caller and nothing of the instance has changed; when it returns,
  \<open>disconnect()\<close> succeeds, the session and all Channels are cleared, the store handle and
  the connecting flag are reset, the polling timer is cleared and \<open>disconnected\<close> is
  emitted.
\<close>

theorem disconnect_teardown:
  "(orbitdb s = None \<longrightarrow> disconnect close_res s = (Inr (), s))
 \<and> (orbitdb s \<noteq> None \<longrightarrow>
      disconnect (Some e) s = (Inl e, s)
    \<and> disconnect None s =
        (Inr (), s\<lparr>connecting := False, orbitdb := None, user := None, channels := Map.empty,
                   timers := (case pollPeersTimer s of None \<Rightarrow> timers s
                              | Some h \<Rightarrow> removeAll h (timers s)),
                   events := events s @ [Disconnected]\<rparr>))"
  by (auto simp: disconnect_def clearInterval_def Let_def split: option.splits)

theorem disconnect_teardown_witness:
  "orbitdb constructor = None
 \<and> disconnect (Some (CollaboratorError 0)) constructor = (Inr (), constructor)
 \<and> orbitdb alice_in_general \<noteq> None
 \<and> fst (disconnect None alice_in_general) = Inr ()
 \<and> user (snd (disconnect None alice_in_general)) = None
 \<and> channels (snd (disconnect None alice_in_general)) ''general'' = None
 \<and> orbitdb (snd (disconnect None alice_in_general)) = None
 \<and> timers (snd (disconnect None alice_in_general)) = []
 \<and> events (snd (disconnect None alice_in_general))
     = [Connected alice, Joined ''general'' general, Disconnected]"
proof -
  have h1: "orbitdb constructor = None" by (simp add: constructor_def)
  have h2: "orbitdb alice_in_general \<noteq> None" by (simp add: alice_in_general_eq)
  note w1 = disconnect_teardown[of constructor "Some (CollaboratorError 0)", THEN conjunct1,
      rule_format, OF h1]
  note w2 = disconnect_teardown[of alice_in_general, THEN conjunct2, rule_format, OF h2,
      THEN conjunct2]
  show ?thesis
    unfolding w1 w2 using h1 by (simp add: alice_in_general_eq)
qed

text \<open>
  Claim C3 as the spec words it fails: alice is connected and has joined \<open>general\<close>, and
  the store's \<open>disconnect\<close> raises. The error is the result of \<open>disconnect()\<close>, and the
  instance is as before: still connected, session and Channel in place, timer running,
  no \<open>disconnected\<close> event.
\<close>

theorem disconnect_propagates_close_error:
  "disconnect (Some (CollaboratorError 0)) alice_in_general
     = (Inl (CollaboratorError 0), alice_in_general)
 \<and> orbitdb alice_in_general = Some 9
 \<and> user alice_in_general = Some alice
 \<and> channels alice_in_general ''general'' = Some general
 \<and> timers alice_in_general = [1]
 \<and> Disconnected \<notin> set (events alice_in_general)"
  by (simp add: alice_in_general_eq disconnect_def)

subsection \<open>C4: posting to a channel that was not joined\<close>

lemma getChannelFeed_not_joined:
  "cn \<noteq> [] \<Longrightarrow> channels s cn = None \<Longrightarrow>
   getChannelFeed cn s =
     (if cn \<in> set object_prototype_names then Inl (HaveNotJoined cn) else Inl TypeError)"
  by (simp add: getChannelFeed_def get_prop_def)

text \<open>
  Claim C4 says that posting to a name without Channel fails with \<open>Have not joined\<close> and
  with nothing else. The code reads \<open>this.channels[channelName].feed\<close> before it tests
  the result, so for a name without Channel the read of \<open>feed\<close> on \<open>undefined\<close> throws a
  TypeError: alice is connected and has joined nothing, and both \<open>send('general', 'hello')\<close>
  and \<open>_postMessage('general', data)\<close> fail with the TypeError. (The error \<open>Have not
  joined\<close> is reached only for a name that \<open>Object.prototype\<close> defines.)
\<close>

theorem post_without_join_raises_TypeError:
  "channels alice_connected ''general'' = None
 \<and> user alice_connected = Some alice
 \<and> send (Inr 0) 1000 ''general'' ''hello'' alice_connected = (Inl TypeError, alice_connected)
 \<and> postMessage (Inr 0) ''general'' \<lparr>content = ''hello'', meta = Map.empty\<rparr> alice_connected
     = (Inl TypeError, alice_connected)
 \<and> fst (postMessage (Inr 0) ''toString'' \<lparr>content = ''hello'', meta = Map.empty\<rparr>
          alice_connected) = Inl (HaveNotJoined ''toString'')"
  by (simp add: alice_connected_eq)
     (simp add: send_def postMessage_def getChannelFeed_def get_prop_def
        object_prototype_names_def)

subsection \<open>C5: the poller after a reconnect\<close>

lemma disconnect_keeps_timer_handle:
  "pollPeersTimer (snd (disconnect close_res s)) = pollPeersTimer s"
  by (simp add: disconnect_def clearInterval_def Let_def split: option.splits)

lemma startPollingForPeers_with_handle:
  "pollPeersTimer s = Some h \<Longrightarrow> startPollingForPeers s = s"
  by (simp add: startPollingForPeers_def)

text \<open>
  Claim C5 says that every successful \<open>connect\<close> starts the poller, also after a
  \<open>disconnect\<close>. \<open>disconnect\<close> clears the interval but leaves the handle in
  \<open>_pollPeersTimer\<close>, and \<open>_startPollingForPeers\<close> sets a timer only when that field is
  falsy: alice connects (timer 1 runs), disconnects (no timer runs, the handle is still
  1), and connects again with success; no timer runs then, and a poll never happens.
\<close>

theorem reconnect_starts_no_poller:
  "timers alice_connected = [1]
 \<and> timers (snd (disconnect None alice_connected)) = []
 \<and> pollPeersTimer (snd (disconnect None alice_connected)) = Some 1
 \<and> fst (connect (Inr 7) (Inr 9) (CredString ''alice'') (snd (disconnect None alice_connected)))
     = Inr ()
 \<and> orbitdb (snd (connect (Inr 7) (Inr 9) (CredString ''alice'')
                 (snd (disconnect None alice_connected)))) = Some 9
 \<and> timers (snd (connect (Inr 7) (Inr 9) (CredString ''alice'')
                (snd (disconnect None alice_connected)))) = []
 \<and> poll_tick (Inr [(''p1'', Some ''x'')])
      (snd (connect (Inr 7) (Inr 9) (CredString ''alice'')
             (snd (disconnect None alice_connected))))
     = snd (connect (Inr 7) (Inr 9) (CredString ''alice'')
             (snd (disconnect None alice_connected)))"
  by (simp add: alice_connected_eq)
     (simp add: connect_def disconnect_def clearInterval_def startPollingForPeers_def
        username_of_def poll_tick_def Let_def)

subsection \<open>C6: send\<close>

text \<open>
  Claim C6. With a session \<open>u\<close>, a Channel \<open>c\<close> registered under the non-empty name
  \<open>cn\<close> and a non-empty message, \<open>send\<close> hands one record to the log of \<open>c\<close> and returns
  what the log answers. The content of the record is the first 2048 characters of the
  message: its length is 2048 for a message of 3000 characters, and it is the message
  itself when that has at most 2048 characters. Its meta data are the type \<open>text\<close>, the
  profile of the session under \<open>from\<close> and the current time under \<open>ts\<close>.
\<close>

theorem send_truncates:
  assumes "user s = Some u" and "channels s cn = Some c" and "cn \<noteq> []" and "msg \<noteq> []"
  shows "\<exists>data.
           send add_res now cn msg s = (add_res, s\<lparr>posted := posted s @ [(feed c, data)]\<rparr>)
         \<and> content data = take 2048 msg
         \<and> length (content data) = min 2048 (length msg)
         \<and> (length msg = 3000 \<longrightarrow> length (content data) = 2048)
         \<and> (length msg \<le> 2048 \<longrightarrow> content data = msg)
         \<and> meta data = [''from'' \<mapsto> JProfile (profile u), ''type'' \<mapsto> JStr ''text'',
                         ''ts'' \<mapsto> JNum now]"
proof -
  let ?data = "\<lparr>content = take 2048 msg,
                meta = [''from'' \<mapsto> JProfile (profile u), ''type'' \<mapsto> JStr ''text'',
                        ''ts'' \<mapsto> JNum now]\<rparr>"
  have "send add_res now cn msg s = (add_res, s\<lparr>posted := posted s @ [(feed c, ?data)]\<rparr>)"
    using assms by (simp add: send_def postMessage_def getChannelFeed_def get_prop_def)
  moreover have "length (content ?data) = min 2048 (length msg)" by (simp add: min_def)
  ultimately show ?thesis by (intro exI[of _ ?data]) simp
qed

theorem send_truncates_witness:
  "user alice_in_general = Some alice
 \<and> channels alice_in_general ''general'' = Some general
 \<and> posted (snd (send (Inr 0) 1000 ''general'' ''hello world'' alice_in_general))
     = [(5, \<lparr>content = ''hello world'',
              meta = [''from'' \<mapsto> JProfile (profile alice), ''type'' \<mapsto> JStr ''text'',
                      ''ts'' \<mapsto> JNum 1000]\<rparr>)]
 \<and> map (\<lambda>d. length (content (snd d)))
       (posted (snd (send (Inr 0) 1000 ''general'' (replicate 3000 (CHR ''a''))
                       alice_in_general)))
     = [2048]"
proof -
  have h1: "user alice_in_general = Some alice"
    and h2: "channels alice_in_general ''general'' = Some general"
    and h0: "posted alice_in_general = []"
    by (simp_all add: alice_in_general_eq)
  have h3: "''general'' \<noteq> []" and h4: "''hello world'' \<noteq> []"
    and h5: "replicate 3000 (CHR ''a'') \<noteq> []" by simp_all
  from send_truncates[OF h1 h2 h3 h4, of "Inr 0" 1000]
  have a: "posted (snd (send (Inr 0) 1000 ''general'' ''hello world'' alice_in_general))
     = [(5, \<lparr>content = ''hello world'',
              meta = [''from'' \<mapsto> JProfile (profile alice), ''type'' \<mapsto> JStr ''text'',
                      ''ts'' \<mapsto> JNum 1000]\<rparr>)]"
    by (auto simp: h0 general_def)
  from send_truncates[OF h1 h2 h3 h5, of "Inr 0" 1000]
  have b: "map (\<lambda>d. length (content (snd d)))
       (posted (snd (send (Inr 0) 1000 ''general'' (replicate 3000 (CHR ''a''))
                       alice_in_general))) = [2048]"
    by (auto simp: h0)
  from h1 h2 a b show ?thesis by simp
qed

subsection \<open>C7: leave\<close>

text \<open>
  Claim C7, amended. For a name without Channel that \<open>Object.prototype\<close> does not
  define, \<open>leave\<close> does not fail, emits \<open>left\<close> and changes nothing else. For a name
  with a Channel: when closing the log returns, the log is closed, the Channel is removed
  from the registry and \<open>left\<close> is emitted; when closing raises, the error reaches the
  caller, the Channel stays and \<open>left\<close> is not emitted.
\<close>

theorem leave_cases:
  "(channels s cn = None \<and> cn \<notin> set object_prototype_names \<longrightarrow>
      leave close_res cn s = (Inr (), s\<lparr>events := events s @ [Left cn]\<rparr>))
 \<and> (channels s cn = Some c \<longrightarrow>
      leave None cn s =
        (Inr (), s\<lparr>closed_feeds := closed_feeds s @ [feed c],
                   channels := (channels s)(cn := None),
                   events := events s @ [Left cn]\<rparr>)
    \<and> leave (Some e) cn s = (Inl e, s))"
  by (simp add: leave_def get_prop_def Let_def)

theorem leave_cases_witness:
  "channels alice_connected ''general'' = None
 \<and> ''general'' \<notin> set object_prototype_names
 \<and> leave None ''general'' alice_connected
     = (Inr (), alice_connected\<lparr>events := [Connected alice, Left ''general'']\<rparr>)
 \<and> channels alice_in_general ''general'' = Some general
 \<and> fst (leave None ''general'' alice_in_general) = Inr ()
 \<and> channels (snd (leave None ''general'' alice_in_general)) ''general'' = None
 \<and> closed_feeds (snd (leave None ''general'' alice_in_general)) = [5]
 \<and> events (snd (leave None ''general'' alice_in_general))
     = [Connected alice, Joined ''general'' general, Left ''general'']"
proof -
  have h1: "channels alice_connected ''general'' = None \<and>
            ''general'' \<notin> set object_prototype_names"
    by (simp add: alice_connected_eq object_prototype_names_def)
  have h2: "channels alice_in_general ''general'' = Some general"
    by (simp add: alice_in_general_eq)
  note w1 = leave_cases[of alice_connected "''general''" None, THEN conjunct1, rule_format,
      OF h1]
  note w2 = leave_cases[of alice_in_general "''general''" _ general, THEN conjunct2,
      rule_format, OF h2, THEN conjunct1]
  show ?thesis
    unfolding w1 w2 using h1 h2
    by (simp add: alice_connected_eq alice_in_general_eq general_def)
qed

text \<open>
  Claim C7 as the spec words it fails at two inputs. On a new instance no Channel
  exists for \<open>toString\<close>, yet \<open>leave('toString')\<close> fails and emits nothing: the value
  read from \<open>_channels\<close> is the function inherited from \<open>Object.prototype\<close>, and
  \<open>close\<close> is called on its missing \<open>feed\<close>. And when alice has joined \<open>general\<close> and
  closing its log raises, \<open>leave('general')\<close> fails with that error, emits no \<open>left\<close>
  and keeps the Channel.
\<close>

theorem leave_counterexample:
  "channels constructor ''toString'' = None
 \<and> leave None ''toString'' constructor = (Inl TypeError, constructor)
 \<and> leave (Some (CollaboratorError 0)) ''general'' alice_in_general
     = (Inl (CollaboratorError 0), alice_in_general)
 \<and> channels alice_in_general ''general'' = Some general
 \<and> Left ''general'' \<notin> set (events alice_in_general)"
  by (simp add: alice_in_general_eq)
     (simp add: leave_def get_prop_def object_prototype_names_def constructor_def alice_def)

subsection \<open>C8 and C10: the record that addFile posts\<close>

lemma addFile_posts:
  assumes "user s = Some u" and "channels s cn = Some c" and "cn \<noteq> []"
    and "truthy_str (filename src) \<or> truthy_str (directory src)"
    and "addFile_name src = Inr nm"
    and "addFile_upload src nm ipfs_res = Inr up"
  shows "addFile ipfs_res add_res now cn (Some src) s =
           (add_res, s\<lparr>posted := posted s @ [(feed c, addFile_data u now src nm up)]\<rparr>)"
  using assms by (auto simp: addFile_def postMessage_def getChannelFeed_def get_prop_def)

lemma addFile_data_type:
  "meta (addFile_data u now src nm up) ''type'' =
     (case supplied_type src of
        None \<Rightarrow> Some (JStr (if snd up then ''directory'' else ''file''))
      | Some v \<Rightarrow> Some v)"
  by (simp add: addFile_data_def supplied_type_def map_add_def split: option.splits)

lemmas addFile_defs = addFile_def addFile_name_def addFile_upload_def addFile_isBuffer_def
  addFile_data_def addFile_size_def addToIpfsJs_def addToIpfsGo_def truthy_str_def
  split_pop_def postMessage_def getChannelFeed_def get_prop_def Let_def

text \<open>
  Claim C8, amended. Let \<open>addFile\<close> run with a session, a Channel registered under the
  non-empty name \<open>cn\<close> and a source whose \<open>filename\<close> or \<open>directory\<close> is given and whose
  leaf name is \<open>nm\<close>, and let the content store return the entries \<open>r0 # rs\<close>. Then one
  record is posted. For a buffer source its content is the identifier of the first entry,
  and its type is \<open>file\<close> unless \<open>source.meta\<close> has a property \<open>type\<close>. For a path
  source, when the last path segment of the first entry differs from \<open>nm\<close>, the content is
  the identifier of the last entry, and the type is \<open>directory\<close> unless \<open>source.meta\<close>
  has a property \<open>type\<close>; otherwise the content is the identifier of the first entry, and
  the type is \<open>file\<close> unless \<open>source.meta\<close> has a property \<open>type\<close>. When
  \<open>source.meta\<close> has a property \<open>type\<close>, its value is the type of the record.
\<close>

theorem addFile_type_and_content:
  assumes "user s = Some u" and "channels s cn = Some c" and "cn \<noteq> []"
    and "truthy_str (filename src) \<or> truthy_str (directory src)"
    and "addFile_name src = Inr nm"
    and "ipfs_res = Inr (r0 # rs)"
  shows "\<exists>data.
           addFile ipfs_res add_res now cn (Some src) s =
             (add_res, s\<lparr>posted := posted s @ [(feed c, data)]\<rparr>)
         \<and> (addFile_isBuffer src \<longrightarrow>
               content data = hash r0
             \<and> (supplied_type src = None \<longrightarrow> meta data ''type'' = Some (JStr ''file'')))
         \<and> (\<not> addFile_isBuffer src \<and> last (split_slash (path r0)) \<noteq> nm \<longrightarrow>
               content data = hash (last (r0 # rs))
             \<and> (supplied_type src = None \<longrightarrow>
                  meta data ''type'' = Some (JStr ''directory'')))
         \<and> (\<not> addFile_isBuffer src \<and> last (split_slash (path r0)) = nm \<longrightarrow>
               content data = hash r0
             \<and> (supplied_type src = None \<longrightarrow> meta data ''type'' = Some (JStr ''file'')))
         \<and> (\<forall>v. supplied_type src = Some v \<longrightarrow> meta data ''type'' = Some v)"
proof -
  define up where "up = (if addFile_isBuffer src then (hash r0, False)
     else (if last (split_slash (path r0)) \<noteq> nm then hash (last (r0 # rs)) else hash r0,
           last (split_slash (path r0)) \<noteq> nm))"
  have u: "addFile_upload src nm ipfs_res = Inr up"
    unfolding up_def assms(6)
    by (simp add: addFile_upload_def addToIpfsJs_def addToIpfsGo_def Let_def)
  have p: "addFile ipfs_res add_res now cn (Some src) s =
           (add_res, s\<lparr>posted := posted s @ [(feed c, addFile_data u now src nm up)]\<rparr>)"
    by (rule addFile_posts[OF assms(1-5) u])
  have t: "supplied_type src = None \<Longrightarrow>
     meta (addFile_data u now src nm up) ''type'' =
       Some (JStr (if snd up then ''directory'' else ''file''))"
    by (simp add: addFile_data_type)
  have v: "supplied_type src = Some v \<Longrightarrow>
     meta (addFile_data u now src nm up) ''type'' = Some v" for v
    by (simp add: addFile_data_type)
  have c: "content (addFile_data u now src nm up) = fst up" by (simp add: addFile_data_def)
  have s: "snd up = (\<not> addFile_isBuffer src \<and> last (split_slash (path r0)) \<noteq> nm)"
    by (simp add: up_def)
  have f: "fst up = (if \<not> addFile_isBuffer src \<and> last (split_slash (path r0)) \<noteq> nm
                     then hash (last (r0 # rs)) else hash r0)"
    by (simp add: up_def)
  show ?thesis
  proof (intro exI conjI)
    show "addFile ipfs_res add_res now cn (Some src) s =
           (add_res, s\<lparr>posted := posted s @ [(feed c, addFile_data u now src nm up)]\<rparr>)"
      by (rule p)
    show "addFile_isBuffer src \<longrightarrow>
            content (addFile_data u now src nm up) = hash r0
          \<and> (supplied_type src = None \<longrightarrow>
               meta (addFile_data u now src nm up) ''type'' = Some (JStr ''file''))"
      using t unfolding c s f by simp
    show "\<not> addFile_isBuffer src \<and> last (split_slash (path r0)) \<noteq> nm \<longrightarrow>
            content (addFile_data u now src nm up) = hash (last (r0 # rs))
          \<and> (supplied_type src = None \<longrightarrow>
               meta (addFile_data u now src nm up) ''type'' = Some (JStr ''directory''))"
      using t unfolding c s f by simp
    show "\<not> addFile_isBuffer src \<and> last (split_slash (path r0)) = nm \<longrightarrow>
            content (addFile_data u now src nm up) = hash r0
          \<and> (supplied_type src = None \<longrightarrow>
               meta (addFile_data u now src nm up) ''type'' = Some (JStr ''file''))"
      using t unfolding c s f by simp
    show "\<forall>v. supplied_type src = Some v \<longrightarrow>
            meta (addFile_data u now src nm up) ''type'' = Some v"
      using v by simp
  qed
qed

theorem addFile_type_and_content_witness:
  "user alice_in_general = Some alice
 \<and> channels alice_in_general ''general'' = Some general
 \<and> addFile_isBuffer plain_buffer_source
 \<and> supplied_type plain_buffer_source = None
 \<and> map (\<lambda>d. (content (snd d), meta (snd d) ''type''))
       (posted (snd (addFile (Inr one_entry) (Inr 0) 1000 ''general''
                       (Some plain_buffer_source) alice_in_general)))
     = [(''Qm1'', Some (JStr ''file''))]
 \<and> \<not> addFile_isBuffer dir_source
 \<and> supplied_type dir_source = None
 \<and> addFile_name dir_source = Inr ''holiday''
 \<and> map (\<lambda>d. (content (snd d), meta (snd d) ''type''))
       (posted (snd (addFile (Inr dir_entries) (Inr 0) 1000 ''general''
                       (Some dir_source) alice_in_general)))
     = [(''QmDir'', Some (JStr ''directory''))]
 \<and> \<not> addFile_isBuffer path_source
 \<and> supplied_type path_source = None
 \<and> addFile_name path_source = Inr ''a.txt''
 \<and> map (\<lambda>d. (content (snd d), meta (snd d) ''type''))
       (posted (snd (addFile (Inr one_entry) (Inr 0) 1000 ''general''
                       (Some path_source) alice_in_general)))
     = [(''Qm1'', Some (JStr ''file''))]
 \<and> addFile_isBuffer buffer_source
 \<and> supplied_type buffer_source = Some (JStr ''directory'')
 \<and> map (\<lambda>d. (content (snd d), meta (snd d) ''type''))
       (posted (snd (addFile (Inr one_entry) (Inr 0) 1000 ''general''
                       (Some buffer_source) alice_in_general)))
     = [(''Qm1'', Some (JStr ''directory''))]"
proof -
  have h1: "user alice_in_general = Some alice"
    and h2: "channels alice_in_general ''general'' = Some general"
    and h0: "posted alice_in_general = []"
    by (simp_all add: alice_in_general_eq)
  have h3: "''general'' \<noteq> []" by simp
  have b: "truthy_str (filename plain_buffer_source) \<or> truthy_str (directory plain_buffer_source)"
    "addFile_name plain_buffer_source = Inr ''a.txt''"
    "supplied_type plain_buffer_source = None"
    "addFile_isBuffer plain_buffer_source"
    by (simp_all add: plain_buffer_source_def truthy_str_def addFile_name_def split_pop_def
        addFile_isBuffer_def supplied_type_def)
  have d: "truthy_str (filename dir_source) \<or> truthy_str (directory dir_source)"
    "addFile_name dir_source = Inr ''holiday''"
    "supplied_type dir_source = None"
    "\<not> addFile_isBuffer dir_source"
    by (simp_all add: dir_source_def truthy_str_def addFile_name_def split_pop_def
        addFile_isBuffer_def supplied_type_def)
  have f: "truthy_str (filename path_source) \<or> truthy_str (directory path_source)"
    "addFile_name path_source = Inr ''a.txt''"
    "supplied_type path_source = None"
    "\<not> addFile_isBuffer path_source"
    by (simp_all add: path_source_def truthy_str_def addFile_name_def split_pop_def
        addFile_isBuffer_def supplied_type_def)
  have g: "truthy_str (filename buffer_source) \<or> truthy_str (directory buffer_source)"
    "addFile_name buffer_source = Inr ''a.txt''"
    "supplied_type buffer_source = Some (JStr ''directory'')"
    "addFile_isBuffer buffer_source"
    by (simp_all add: buffer_source_def truthy_str_def addFile_name_def split_pop_def
        addFile_isBuffer_def supplied_type_def)
  have e1: "Inr one_entry = (Inr (\<lparr>path = ''a.txt'', hash = ''Qm1''\<rparr> # []) :: error + entry list)"
    by (simp add: one_entry_def)
  have e2: "Inr dir_entries =
     (Inr (\<lparr>path = ''holiday/a.jpg'', hash = ''QmA''\<rparr> # [\<lparr>path = ''holiday'', hash = ''QmDir''\<rparr>])
        :: error + entry list)"
    by (simp add: dir_entries_def)
  from addFile_type_and_content[OF h1 h2 h3 b(1) b(2) e1, of "Inr 0" 1000] b(3,4)
  have r1: "map (\<lambda>d. (content (snd d), meta (snd d) ''type''))
       (posted (snd (addFile (Inr one_entry) (Inr 0) 1000 ''general''
                       (Some plain_buffer_source) alice_in_general)))
     = [(''Qm1'', Some (JStr ''file''))]"
    by (auto simp: h0)
  from addFile_type_and_content[OF h1 h2 h3 d(1) d(2) e2, of "Inr 0" 1000] d(3,4)
  have r2: "map (\<lambda>d. (content (snd d), meta (snd d) ''type''))
       (posted (snd (addFile (Inr dir_entries) (Inr 0) 1000 ''general''
                       (Some dir_source) alice_in_general)))
     = [(''QmDir'', Some (JStr ''directory''))]"
    by (auto simp: h0)
  from addFile_type_and_content[OF h1 h2 h3 f(1) f(2) e1, of "Inr 0" 1000] f(3,4)
  have r3: "map (\<lambda>d. (content (snd d), meta (snd d) ''type''))
       (posted (snd (addFile (Inr one_entry) (Inr 0) 1000 ''general''
                       (Some path_source) alice_in_general)))
     = [(''Qm1'', Some (JStr ''file''))]"
    by (auto simp: h0)
  from addFile_type_and_content[OF h1 h2 h3 g(1) g(2) e1, of "Inr 0" 1000] g(3,4)
  have r4: "map (\<lambda>d. (content (snd d), meta (snd d) ''type''))
       (posted (snd (addFile (Inr one_entry) (Inr 0) 1000 ''general''
                       (Some buffer_source) alice_in_general)))
     = [(''Qm1'', Some (JStr ''directory''))]"
    by (auto simp: h0)
  from h1 h2 b d f g r1 r2 r3 r4 show ?thesis by simp
qed

text \<open>
  Claim C8 as the spec words it fails: alice has joined \<open>general\<close> and adds a buffer
  source whose \<open>meta\<close> carries \<open>type: 'directory'\<close>. The record posted has the type
  \<open>directory\<close>, since \<open>source.meta\<close> is the last argument of \<open>Object.assign\<close>.
\<close>

theorem addFile_buffer_counterexample:
  "addFile_isBuffer buffer_source
 \<and> map (\<lambda>d. meta (snd d) ''type'')
     (posted (snd (addFile (Inr one_entry) (Inr 0) 1000 ''general''
                     (Some buffer_source) alice_in_general)))
   = [Some (JStr ''directory'')]"
  by (simp add: alice_in_general_eq)
     (simp add: addFile_defs buffer_source_def one_entry_def general_def)

text \<open>
  Claim C10. Whenever \<open>addFile\<close> posts a record, every property \<open>k\<close> of the caller's
  \<open>source.meta\<close> is a property of the record's meta data with the caller's value, whatever
  \<open>k\<close> is: also \<open>type\<close>, \<open>from\<close> and \<open>ts\<close>, in place of the computed type, the
  profile of the session and the time.
\<close>

theorem addFile_meta_overrides:
  assumes "addFile ipfs_res add_res now cn (Some src) s = (r, s')"
    and "posted s' \<noteq> posted s"
    and "src_meta src = Some m" and "m k = Some v"
  shows "\<exists>f data. posted s' = posted s @ [(f, data)] \<and> meta data k = Some v"
proof -
  have m: "meta (addFile_data u now src nm up) k = Some v" for u nm up
    using assms(3,4) by (simp add: addFile_data_def map_add_def)
  from assms(1,2) show ?thesis
    unfolding addFile_def postMessage_def
    by (auto simp: m split: option.splits sum.splits if_splits)
qed

theorem addFile_meta_overrides_witness:
  "src_meta forged_source
     = Some [''type'' \<mapsto> JStr ''image'', ''from'' \<mapsto> JStr ''mallory'', ''ts'' \<mapsto> JNum 1]
 \<and> length (posted (snd (addFile (Inr one_entry) (Inr 0) 1000 ''general''
                           (Some forged_source) alice_in_general))) = 1
 \<and> map (\<lambda>d. (meta (snd d) ''type'', meta (snd d) ''from'', meta (snd d) ''ts''))
       (posted (snd (addFile (Inr one_entry) (Inr 0) 1000 ''general''
                       (Some forged_source) alice_in_general)))
     = [(Some (JStr ''image''), Some (JStr ''mallory''), Some (JNum 1))]"
proof -
  let ?m = "[''type'' \<mapsto> JStr ''image'', ''from'' \<mapsto> JStr ''mallory'', ''ts'' \<mapsto> JNum 1]"
  let ?call = "addFile (Inr one_entry) (Inr 0) 1000 ''general'' (Some forged_source)
                 alice_in_general"
  have h0: "posted alice_in_general = []" by (simp add: alice_in_general_eq)
  have h1: "?call = (fst ?call, snd ?call)" by simp
  have len: "length (posted (snd ?call)) = 1"
    by (simp add: alice_in_general_eq)
       (simp add: addFile_defs forged_source_def one_entry_def general_def)
  then have h2: "posted (snd ?call) \<noteq> posted alice_in_general" unfolding h0 by auto
  have h3: "src_meta forged_source = Some ?m" by (simp add: forged_source_def)
  have k1: "?m ''type'' = Some (JStr ''image'')"
    and k2: "?m ''from'' = Some (JStr ''mallory'')"
    and k3: "?m ''ts'' = Some (JNum 1)" by simp_all
  from addFile_meta_overrides[OF h1 h2 h3 k1] addFile_meta_overrides[OF h1 h2 h3 k2]
    addFile_meta_overrides[OF h1 h2 h3 k3]
  have "map (\<lambda>d. (meta (snd d) ''type'', meta (snd d) ''from'', meta (snd d) ''ts''))
       (posted (snd ?call))
     = [(Some (JStr ''image''), Some (JStr ''mallory''), Some (JNum 1))]"
    unfolding h0 by auto
  with h3 len show ?thesis by simp
qed

end
